theory Spec2Isabelle
  imports Complex_Main
begin

section \<open>Python values, exceptions and the outside world\<close>

text \<open>
  The program is one Python file, \<^verbatim>\<open>src/main.py\<close>: a class \<^verbatim>\<open>ATrustLogin\<close> that drives a
  browser through Selenium, and a function \<^verbatim>\<open>main\<close> that keeps the session alive.
  Python strings are modelled as \<^typ>\<open>string\<close> holding their UTF-8 bytes. The source
  itself only tests strings for a prefix and for a substring; on well-formed UTF-8 these
  tests give the same answer on bytes as on code points.
\<close>

text \<open>
  Python's exception classes, as far as the source tells them apart:
  \<^verbatim>\<open>except FileNotFoundError\<close> in \<^verbatim>\<open>load_storage\<close>, the bare \<^verbatim>\<open>except:\<close> in
  \<^verbatim>\<open>enter_credentials\<close>, and \<^verbatim>\<open>except Exception\<close> in \<^verbatim>\<open>main\<close>. \<^verbatim>\<open>SystemExit\<close> and
  \<^verbatim>\<open>KeyboardInterrupt\<close> derive from \<^verbatim>\<open>BaseException\<close> but not from \<^verbatim>\<open>Exception\<close>.
\<close>

datatype exception_class =
    FileNotFoundError
  | ValueError
  | OverflowError
  | KeyError
  | OSError
  | UnpicklingError
  | TimeoutException
  | NoSuchElementException
  | WebDriverException

datatype exc =
    Exception exception_class
  | SystemExit int
  | KeyboardInterrupt

fun is_Exception :: "exc \<Rightarrow> bool" where
  "is_Exception (Exception k) = True"
| "is_Exception (SystemExit n) = False"
| "is_Exception KeyboardInterrupt = False"

fun is_FileNotFoundError :: "exc \<Rightarrow> bool" where
  "is_FileNotFoundError (Exception k) = (k = FileNotFoundError)"
| "is_FileNotFoundError (SystemExit n) = False"
| "is_FileNotFoundError KeyboardInterrupt = False"

text \<open>The values a cookie dictionary or a local-storage entry can hold (\<^verbatim>\<open>Any\<close>).\<close>

datatype pyval =
    PyNone
  | PyBool bool
  | PyInt int
  | PyStr string
  | PyDict "(string \<times> pyval) list"

type_synonym cookie = "(string \<times> pyval) list"

text \<open>\<^verbatim>\<open>class ATrustLoginStorage(BaseModel)\<close>, lines 18 to 20.\<close>

record ATrustLoginStorage =
  cookies :: "cookie list"
  local_storage :: "(string \<times> pyval) list"

datatype locator = ByXPath string | ById string

type_synonym element = nat

datatype level = Debug | Info | Error

text \<open>
  Every call the program makes on the browser, the file system, the clock and the logger
  is recorded, in order, as an event.
\<close>

datatype event =
    Ev_get string
  | Ev_wait_ready
  | Ev_sleep real
  | Ev_find_element locator
  | Ev_is_displayed element
  | Ev_scroll_into_view element
  | Ev_click element
  | Ev_wait_clickable locator
  | Ev_clear element
  | Ev_send_keys element string
  | Ev_path_exists string
  | Ev_pickle_load string
  | Ev_delete_cookie pyval
  | Ev_add_cookie cookie
  | Ev_set_item string pyval
  | Ev_current_url
  | Ev_page_source
  | Ev_quit
  | Ev_get_cookies
  | Ev_get_local_storage
  | Ev_pickle_dump string ATrustLoginStorage
  | Ev_log level string

text \<open>
  The outside world (browser, driver, file system, clock) is a parameter: a state of type
  \<open>'w\<close> and, for every external call of the source, a function that gives the call's
  outcome (a value or a raised exception) and the next state of the world. The last field
  is the standard library's \<^verbatim>\<open>urlparse(url).fragment\<close>, a function of the URL alone: it
  gives the fragment, or the exception \<^verbatim>\<open>urlparse\<close> raises on that string (\<^verbatim>\<open>ValueError\<close>
  on a malformed host). The library is not part of the repository, so its result is taken
  as given, for every string.
\<close>

type_synonym ('w, 'a) extcall = "'w \<Rightarrow> (exc + 'a) \<times> 'w"

record 'w env =
  drv_get :: "string \<Rightarrow> ('w, unit) extcall"
  drv_wait_ready :: "('w, unit) extcall"
  os_sleep :: "real \<Rightarrow> ('w, unit) extcall"
  drv_find_element :: "locator \<Rightarrow> ('w, element) extcall"
  el_is_displayed :: "element \<Rightarrow> ('w, bool) extcall"
  drv_scroll_into_view :: "element \<Rightarrow> ('w, unit) extcall"
  el_click :: "element \<Rightarrow> ('w, unit) extcall"
  drv_wait_clickable :: "locator \<Rightarrow> ('w, unit) extcall"
  el_clear :: "element \<Rightarrow> ('w, unit) extcall"
  el_send_keys :: "element \<Rightarrow> string \<Rightarrow> ('w, unit) extcall"
  os_path_exists :: "string \<Rightarrow> ('w, bool) extcall"
  pickle_load :: "string \<Rightarrow> ('w, ATrustLoginStorage) extcall"
  drv_delete_cookie :: "pyval \<Rightarrow> ('w, unit) extcall"
  drv_add_cookie :: "cookie \<Rightarrow> ('w, unit) extcall"
  js_set_item :: "string \<Rightarrow> pyval \<Rightarrow> ('w, unit) extcall"
  drv_current_url :: "('w, string) extcall"
  drv_page_source :: "('w, string) extcall"
  drv_quit :: "('w, unit) extcall"
  drv_get_cookies :: "('w, cookie list) extcall"
  js_local_storage :: "('w, (string \<times> pyval) list) extcall"
  pickle_dump :: "string \<Rightarrow> ATrustLoginStorage \<Rightarrow> ('w, unit) extcall"
  urlparse_fragment :: "string \<Rightarrow> exc + string"

text \<open>
  The mutable part of an \<^verbatim>\<open>ATrustLogin\<close> object: its \<^verbatim>\<open>initialized\<close> flag, the world it
  acts on, and the events so far. The attributes set once in \<^verbatim>\<open>__init__\<close> are the
  configuration.
\<close>

record 'w session =
  initialized :: bool
  world :: 'w
  trace :: "event list"

record config =
  data_dir :: string
  interactive :: bool
  portal_address :: string
  input_delay :: real
  loading_delay :: real

text \<open>Lines 33 and 34.\<close>

definition must_be_logged_keywords :: "string list" where
  "must_be_logged_keywords = [''app_center'', ''user_info'', ''app_apply'', ''device_manage'']"

definition must_not_logged_keywords :: "string list" where
  "must_not_logged_keywords = [''login'', ''captcha'']"

text \<open>The two page markers of line 204 and the log text of line 144, as UTF-8 bytes.\<close>

definition workspace_marker :: string where
  "workspace_marker =
     [CHR 0xE5, CHR 0xB7, CHR 0xA5, CHR 0xE4, CHR 0xBD, CHR 0x9C, CHR 0xE5, CHR 0x8F, CHR 0xB0]"

definition local_password_marker :: string where
  "local_password_marker =
     [CHR 0xE6, CHR 0x9C, CHR 0xAC, CHR 0xE5, CHR 0x9C, CHR 0xB0,
      CHR 0xE5, CHR 0xAF, CHR 0x86, CHR 0xE7, CHR 0xA0, CHR 0x81]"

definition no_stored_data_message :: string where
  "no_stored_data_message =
     [CHR 0xE6, CHR 0x9C, CHR 0xAA, CHR 0xE6, CHR 0x89, CHR 0xBE, CHR 0xE5, CHR 0x88, CHR 0xB0,
      CHR 0xE5, CHR 0xAD, CHR 0x98, CHR 0xE5, CHR 0x82, CHR 0xA8, CHR 0xE7, CHR 0x9A, CHR 0x84,
      CHR 0xE6, CHR 0x95, CHR 0xB0, CHR 0xE6, CHR 0x8D, CHR 0xAE]"

section \<open>Programs: state, result or exception\<close>

text \<open>
  A method of the object is a function from the session to an outcome and the session
  afterwards. The outcome is \<open>Inr v\<close> when the method returns \<open>v\<close> and \<open>Inl e\<close> when it
  raises \<open>e\<close>; the session is kept in both cases, since what was done before a raise
  stays done.
\<close>

type_synonym ('w, 'a) prog = "'w session \<Rightarrow> (exc + 'a) \<times> 'w session"

definition ret :: "'a \<Rightarrow> ('w, 'a) prog" where
  "ret v = (\<lambda>s. (Inr v, s))"

definition raise :: "exc \<Rightarrow> ('w, 'a) prog" where
  "raise e = (\<lambda>s. (Inl e, s))"

definition and_then :: "('w, 'a) prog \<Rightarrow> ('a \<Rightarrow> ('w, 'b) prog) \<Rightarrow> ('w, 'b) prog" where
  "and_then m f = (\<lambda>s. case m s of (Inl e, s') \<Rightarrow> (Inl e, s') | (Inr v, s') \<Rightarrow> f v s')"

definition before :: "('w, 'a) prog \<Rightarrow> ('w, 'b) prog \<Rightarrow> ('w, 'b) prog" where
  "before m k = and_then m (\<lambda>_. k)"

fun do_all :: "('w, unit) prog list \<Rightarrow> ('w, unit) prog" where
  "do_all [] = ret ()"
| "do_all (m # ms) = before m (do_all ms)"

text \<open>\<^verbatim>\<open>try: m except <class>: h\<close>, for the exceptions \<open>catches\<close> accepts.\<close>

definition try_except :: "('w, 'a) prog \<Rightarrow> (exc \<Rightarrow> bool) \<Rightarrow> (exc \<Rightarrow> ('w, 'a) prog) \<Rightarrow> ('w, 'a) prog" where
  "try_except m catches h =
     (\<lambda>s. case m s of
        (Inl e, s') \<Rightarrow> if catches e then h e s' else (Inl e, s')
      | (Inr v, s') \<Rightarrow> (Inr v, s'))"

text \<open>An external call: the world decides the outcome, the trace records the call.\<close>

definition ext :: "event \<Rightarrow> ('w, 'a) extcall \<Rightarrow> ('w, 'a) prog" where
  "ext ev call =
     (\<lambda>s. case call (world s) of (r, w') \<Rightarrow> (r, s\<lparr>world := w', trace := trace s @ [ev]\<rparr>))"

text \<open>A \<^verbatim>\<open>logger\<close> call: it only records the message.\<close>

definition log_msg :: "level \<Rightarrow> string \<Rightarrow> ('w, unit) prog" where
  "log_msg lvl msg = (\<lambda>s. (Inr (), s\<lparr>trace := trace s @ [Ev_log lvl msg]\<rparr>))"

section \<open>String operations of the source\<close>

text \<open>\<^verbatim>\<open>s.startswith(p)\<close>.\<close>

definition startswith :: "string \<Rightarrow> string \<Rightarrow> bool" where
  "startswith s p = (take (length p) s = p)"

text \<open>\<^verbatim>\<open>sub in s\<close> on strings: \<open>sub\<close> occurs somewhere in \<open>s\<close>.\<close>

fun str_in :: "string \<Rightarrow> string \<Rightarrow> bool" where
  "str_in sub [] = (sub = [])"
| "str_in sub (c # cs) = (startswith (c # cs) sub \<or> str_in sub cs)"

text \<open>
  \<^verbatim>\<open>os.path.join(data_dir, "ATrustLoginStorage.pkl")\<close> with POSIX separators; the second
  component is relative.
\<close>

definition storage_path :: "config \<Rightarrow> string" where
  "storage_path cfg =
     (if data_dir cfg = [] \<or> last (data_dir cfg) = CHR ''/''
      then data_dir cfg @ ''ATrustLoginStorage.pkl''
      else data_dir cfg @ ''/'' @ ''ATrustLoginStorage.pkl'')"

text \<open>Truth value of an \<^verbatim>\<open>Optional[bool]\<close> in a condition: \<^verbatim>\<open>None\<close> and \<^verbatim>\<open>False\<close> are falsy.\<close>

fun truthy :: "bool option \<Rightarrow> bool" where
  "truthy None = False"
| "truthy (Some b) = b"

section \<open>The methods of ATrustLogin\<close>

text \<open>Line 24 of \<^verbatim>\<open>__init__\<close>: a new object is not initialized.\<close>

definition new_session :: "'w \<Rightarrow> 'w session" where
  "new_session w = \<lparr>initialized = False, world = w, trace = []\<rparr>"

definition open_portal :: "'w env \<Rightarrow> config \<Rightarrow> ('w, unit) prog" where
  "open_portal env cfg = ext (Ev_get (portal_address cfg)) (drv_get env (portal_address cfg))"

definition wait_login_page :: "'w env \<Rightarrow> ('w, unit) prog" where
  "wait_login_page env = ext Ev_wait_ready (drv_wait_ready env)"

text \<open>
  \<^verbatim>\<open>time.sleep(d)\<close> first converts the length to a signed 64-bit count of nanoseconds and
  raises \<^verbatim>\<open>OverflowError\<close> when it does not fit (beyond about 9.2e9 seconds either way);
  then it raises \<^verbatim>\<open>ValueError\<close> on a negative length; then it sleeps. Lengths are exact
  reals here: the rounding of a float at the very bound is not modelled.
\<close>

definition sleep_overflows :: "real \<Rightarrow> bool" where
  "sleep_overflows d =
     (d * 1000000000 > 9223372036854775807 \<or> d * 1000000000 < - 9223372036854775808)"

definition time_sleep :: "'w env \<Rightarrow> real \<Rightarrow> ('w, unit) prog" where
  "time_sleep env d =
     (if sleep_overflows d then raise (Exception OverflowError)
      else if d < 0 then raise (Exception ValueError)
      else ext (Ev_sleep d) (os_sleep env d))"

text \<open>The lengths \<^verbatim>\<open>time.sleep\<close> accepts.\<close>

definition valid_sleep_length :: "real \<Rightarrow> bool" where
  "valid_sleep_length d = (0 \<le> d \<and> \<not> sleep_overflows d)"

definition delay_input :: "'w env \<Rightarrow> config \<Rightarrow> ('w, unit) prog" where
  "delay_input env cfg = time_sleep env (input_delay cfg)"

definition delay_loading :: "'w env \<Rightarrow> config \<Rightarrow> ('w, unit) prog" where
  "delay_loading env cfg = time_sleep env (loading_delay cfg)"

definition scroll_and_click :: "'w env \<Rightarrow> element \<Rightarrow> ('w, element) prog" where
  "scroll_and_click env el =
     before (ext (Ev_scroll_into_view el) (drv_scroll_into_view env el))
       (before (ext (Ev_click el) (el_click env el)) (ret el))"

definition local_password_xpath :: string where
  "local_password_xpath =
     ''//div[contains(@class, '' @ [CHR 0x27] @ ''server-name'' @ [CHR 0x27]
       @ '') and contains(text(), '' @ [CHR 0x27] @ local_password_marker @ [CHR 0x27] @ '')]''"

definition find_element :: "'w env \<Rightarrow> locator \<Rightarrow> ('w, element) prog" where
  "find_element env loc = ext (Ev_find_element loc) (drv_find_element env loc)"

definition wait_clickable :: "'w env \<Rightarrow> locator \<Rightarrow> ('w, unit) prog" where
  "wait_clickable env loc = ext (Ev_wait_clickable loc) (drv_wait_clickable env loc)"

text \<open>Lines 95 to 121.\<close>

definition enter_credentials :: "'w env \<Rightarrow> config \<Rightarrow> string \<Rightarrow> string \<Rightarrow> ('w, unit) prog" where
  "enter_credentials env cfg username password =
     before
       (try_except
          (and_then (find_element env (ByXPath local_password_xpath)) (\<lambda>el.
             and_then (ext (Ev_is_displayed el) (el_is_displayed env el)) (\<lambda>shown.
               if shown
               then before (delay_input env cfg) (before (scroll_and_click env el) (ret ()))
               else ret ())))
          (\<lambda>e. True)
          (\<lambda>e. ret ()))
       (before (wait_clickable env (ById ''userName''))
       (and_then (find_element env (ById ''userName'')) (\<lambda>username_input.
        before (wait_clickable env (ById ''password''))
       (and_then (find_element env (ById ''password'')) (\<lambda>password_input.
        do_all
          [before (scroll_and_click env username_input) (ret ()),
           delay_input env cfg,
           ext (Ev_clear username_input) (el_clear env username_input),
           ext (Ev_send_keys username_input username) (el_send_keys env username_input username),
           before (scroll_and_click env password_input) (ret ()),
           delay_input env cfg,
           ext (Ev_clear password_input) (el_clear env password_input),
           ext (Ev_send_keys password_input password) (el_send_keys env password_input password),
           log_msg Debug ''Filled username and password''])))))"

text \<open>Lines 124 and 125.\<close>

definition click_login_button :: "'w env \<Rightarrow> ('w, unit) prog" where
  "click_login_button env =
     and_then (find_element env (ById ''loginBtn'')) (\<lambda>el.
       before (scroll_and_click env el) (ret ()))"

text \<open>
  The two loops of \<^verbatim>\<open>load_storage\<close>, lines 134 to 136 and 138 to 141. \<^verbatim>\<open>cookie['name']\<close>
  raises \<^verbatim>\<open>KeyError\<close> when the key is missing. The script of line 141 sets one
  local-storage item from the JSON text of the key and of the value; the call is recorded
  with the key and the value themselves.
\<close>

fun restore_cookies :: "'w env \<Rightarrow> cookie list \<Rightarrow> ('w, unit) prog" where
  "restore_cookies env [] = ret ()"
| "restore_cookies env (cookie # rest) =
     (case map_of cookie ''name'' of
        None \<Rightarrow> raise (Exception KeyError)
      | Some name \<Rightarrow>
          before (ext (Ev_delete_cookie name) (drv_delete_cookie env name))
            (before (ext (Ev_add_cookie cookie) (drv_add_cookie env cookie))
               (restore_cookies env rest)))"

fun restore_local_storage :: "'w env \<Rightarrow> (string \<times> pyval) list \<Rightarrow> ('w, unit) prog" where
  "restore_local_storage env [] = ret ()"
| "restore_local_storage env ((key, val) # rest) =
     before (ext (Ev_set_item key val) (js_set_item env key val))
       (restore_local_storage env rest)"

text \<open>Lines 127 to 144. Opening the file and unpickling it are one external call.\<close>

definition load_storage :: "'w env \<Rightarrow> config \<Rightarrow> ('w, unit) prog" where
  "load_storage env cfg =
     try_except
       (and_then (ext (Ev_path_exists (storage_path cfg)) (os_path_exists env (storage_path cfg)))
          (\<lambda>present.
             if present
             then and_then (ext (Ev_pickle_load (storage_path cfg)) (pickle_load env (storage_path cfg)))
                    (\<lambda>data.
                       do_all
                         [restore_cookies env (cookies data),
                          restore_local_storage env (local_storage data),
                          log_msg Info ''Loaded storage data''])
             else ret ()))
       is_FileNotFoundError
       (\<lambda>e. log_msg Info no_stored_data_message)"

text \<open>Lines 160 to 166.\<close>

definition set_initialized :: "('w, unit) prog" where
  "set_initialized = (\<lambda>s. (Inr (), s\<lparr>initialized := True\<rparr>))"

definition init_steps :: "'w env \<Rightarrow> config \<Rightarrow> ('w, unit) prog" where
  "init_steps env cfg =
     do_all
       [open_portal env cfg,
        wait_login_page env,
        delay_loading env cfg,
        load_storage env cfg,
        set_initialized]"

definition init :: "'w env \<Rightarrow> config \<Rightarrow> ('w, unit) prog" where
  "init env cfg = (\<lambda>s. if \<not> initialized s then init_steps env cfg s else (Inr (), s))"

text \<open>
  Lines 188 to 204. The result is Python's \<^verbatim>\<open>None\<close>, \<^verbatim>\<open>True\<close> or \<^verbatim>\<open>False\<close>. The source
  reads \<^verbatim>\<open>driver.current_url\<close> on line 194 and again on line 197, and reads
  \<^verbatim>\<open>driver.page_source\<close> once for each operand of the \<^verbatim>\<open>and\<close> of line 204, the second
  only when the first operand is true. An exception of \<^verbatim>\<open>urlparse\<close> on line 197 leaves
  the method.
\<close>

definition current_url :: "'w env \<Rightarrow> ('w, string) prog" where
  "current_url env = ext Ev_current_url (drv_current_url env)"

definition page_source :: "'w env \<Rightarrow> ('w, string) prog" where
  "page_source env = ext Ev_page_source (drv_page_source env)"

definition is_logged :: "'w env \<Rightarrow> ('w, bool option) prog" where
  "is_logged env =
     and_then (current_url env) (\<lambda>url0.
       if startswith url0 ''about:'' then ret None
       else
         and_then (current_url env) (\<lambda>url1.
           case urlparse_fragment env url1 of
             Inl e \<Rightarrow> raise e
           | Inr fragment \<Rightarrow>
               if list_ex (\<lambda>keyword. str_in keyword fragment) must_be_logged_keywords
               then ret (Some True)
               else if list_ex (\<lambda>keyword. str_in keyword fragment) must_not_logged_keywords
               then ret (Some False)
               else
                 and_then (page_source env) (\<lambda>page0.
                   if str_in workspace_marker page0
                   then and_then (page_source env) (\<lambda>page1.
                          ret (Some (\<not> str_in local_password_marker page1)))
                   else ret (Some False))))"

text \<open>Lines 206 and 207.\<close>

definition close :: "'w env \<Rightarrow> ('w, unit) prog" where
  "close env = ext Ev_quit (drv_quit env)"

text \<open>
  Lines 212 to 220. The keyword arguments are evaluated left to right, then the file is
  opened for writing and the object pickled into it (one external call).
\<close>

definition update_storage :: "'w env \<Rightarrow> config \<Rightarrow> ('w, unit) prog" where
  "update_storage env cfg =
     and_then (ext Ev_get_cookies (drv_get_cookies env)) (\<lambda>cs.
       and_then (ext Ev_get_local_storage (js_local_storage env)) (\<lambda>ls.
         ext (Ev_pickle_dump (storage_path cfg) \<lparr>cookies = cs, local_storage = ls\<rparr>)
           (pickle_dump env (storage_path cfg) \<lparr>cookies = cs, local_storage = ls\<rparr>)))"

text \<open>
  Lines 168 to 186. \<^verbatim>\<open>login\<close> returns \<^verbatim>\<open>True\<close> on lines 173 and 186 and falls off its end
  otherwise, which in Python returns \<^verbatim>\<open>None\<close>. \<open>submit_credentials\<close> is lines 175 to 181
  (credential entry, the click on the login button, the pause after it) and
  \<open>login_attempt\<close> is lines 175 to 186, all that follows the early return.
\<close>

definition submit_credentials :: "'w env \<Rightarrow> config \<Rightarrow> string \<Rightarrow> string \<Rightarrow> ('w, unit) prog" where
  "submit_credentials env cfg username password =
     before (enter_credentials env cfg username password)
    (before (delay_input env cfg)
    (before (click_login_button env)
    (before (log_msg Info ''Performed basic login action'')
            (delay_loading env cfg))))"

definition login_attempt :: "'w env \<Rightarrow> config \<Rightarrow> string \<Rightarrow> string \<Rightarrow> ('w, bool option) prog" where
  "login_attempt env cfg username password =
     before (submit_credentials env cfg username password)
       (and_then (is_logged env) (\<lambda>logged.
          if truthy logged
          then before (log_msg Info ''Login Success'')
                 (before (update_storage env cfg) (ret (Some True)))
          else ret None))"

definition login :: "'w env \<Rightarrow> config \<Rightarrow> string \<Rightarrow> string \<Rightarrow> ('w, bool option) prog" where
  "login env cfg username password =
     before (init env cfg)
       (and_then (is_logged env) (\<lambda>logged.
          if truthy logged
          then before (log_msg Info ''Already logged in'') (ret (Some True))
          else login_attempt env cfg username password))"

section \<open>The keepalive loop of main\<close>

text \<open>
  Lines 252 to 258, the first statement of the loop body: detection, and a login when the
  detection is not \<^verbatim>\<open>True\<close>.
\<close>

definition relogin_step :: "'w env \<Rightarrow> config \<Rightarrow> string \<Rightarrow> string \<Rightarrow> ('w, unit) prog" where
  "relogin_step env cfg username password =
     and_then (is_logged env) (\<lambda>logged.
       if \<not> truthy logged
       then before (log_msg Info ''Session lost. Trying to login again ...'')
           (before (open_portal env cfg)
           (before (delay_loading env cfg)
           (and_then (login env cfg username password) (\<lambda>r.
              if r = Some True
              then before (delay_loading env cfg) (delay_loading env cfg)
              else ret ()))))
       else ret ())"

text \<open>Lines 260 to 266. \<^verbatim>\<open>exit(0)\<close> raises \<^verbatim>\<open>SystemExit(0)\<close>.\<close>

definition keepalive_step :: "'w env \<Rightarrow> config \<Rightarrow> real \<Rightarrow> ('w, unit) prog" where
  "keepalive_step env cfg keepalive =
     (if keepalive \<le> 0
      then before (close env) (raise (SystemExit 0))
      else before (time_sleep env keepalive)
             (before (open_portal env cfg) (delay_loading env cfg)))"

text \<open>The body of the \<^verbatim>\<open>try\<close>, lines 252 to 266, and the handler, lines 268 to 270.\<close>

definition cycle_body :: "'w env \<Rightarrow> config \<Rightarrow> string \<Rightarrow> string \<Rightarrow> real \<Rightarrow> ('w, unit) prog" where
  "cycle_body env cfg username password keepalive =
     before (relogin_step env cfg username password) (keepalive_step env cfg keepalive)"

definition error_handler :: "'w env \<Rightarrow> config \<Rightarrow> exc \<Rightarrow> ('w, unit) prog" where
  "error_handler env cfg e =
     before (log_msg Error ''An error occurred when trying to login, retrying ...'')
       (before (log_msg Error ''exception'') (delay_loading env cfg))"

definition cycle :: "'w env \<Rightarrow> config \<Rightarrow> string \<Rightarrow> string \<Rightarrow> real \<Rightarrow> ('w, unit) prog" where
  "cycle env cfg username password keepalive =
     try_except (cycle_body env cfg username password keepalive) is_Exception
       (error_handler env cfg)"

text \<open>
  \<^verbatim>\<open>while True\<close>, line 250: the loop ends only when an exception leaves a cycle. The first
  argument bounds the number of cycles run; \<open>None\<close> means the loop is still running after
  that many.
\<close>

fun main_loop ::
  "nat \<Rightarrow> 'w env \<Rightarrow> config \<Rightarrow> string \<Rightarrow> string \<Rightarrow> real \<Rightarrow> 'w session \<Rightarrow> (exc \<times> 'w session) option"
where
  "main_loop 0 env cfg username password keepalive s = None"
| "main_loop (Suc n) env cfg username password keepalive s =
     (case cycle env cfg username password keepalive s of
        (Inl e, s') \<Rightarrow> Some (e, s')
      | (Inr _, s') \<Rightarrow> main_loop n env cfg username password keepalive s')"

text \<open>
  \<^verbatim>\<open>main\<close> from line 246 on: the object is created, \<^verbatim>\<open>init\<close> is called outside any
  \<^verbatim>\<open>try\<close>, then the loop runs. An exception that leaves \<^verbatim>\<open>main\<close> ends the process.
\<close>

definition main ::
  "nat \<Rightarrow> 'w env \<Rightarrow> config \<Rightarrow> string \<Rightarrow> string \<Rightarrow> real \<Rightarrow> 'w \<Rightarrow> (exc \<times> 'w session) option"
where
  "main n env cfg username password keepalive w =
     (case init env cfg (new_session w) of
        (Inl e, s') \<Rightarrow> Some (e, s')
      | (Inr _, s') \<Rightarrow> main_loop n env cfg username password keepalive s')"

text \<open>The exit status of the process: that of \<^verbatim>\<open>SystemExit\<close>, and 1 for any other exception.\<close>

fun exit_status :: "exc \<Rightarrow> int" where
  "exit_status (SystemExit n) = n"
| "exit_status (Exception k) = 1"
| "exit_status KeyboardInterrupt = 1"

section \<open>The specification's vocabulary\<close>

text \<open>
  The specification names the three outcomes of detection; the docstring of
  \<^verbatim>\<open>is_logged\<close> gives their Python values: \<^verbatim>\<open>None\<close> if not sure, \<^verbatim>\<open>True\<close> if logged,
  \<^verbatim>\<open>False\<close> if not logged.
\<close>

datatype LoginState = LoggedIn | LoggedOut | Indeterminate

fun login_state :: "bool option \<Rightarrow> LoginState" where
  "login_state None = Indeterminate"
| "login_state (Some True) = LoggedIn"
| "login_state (Some False) = LoggedOut"

text \<open>
  \<open>Classify\<close> is written from the specification's section 4.3, not from the source: the
  four rules in order, the first that matches deciding, with "contains" as the
  specification means it (the text occurs somewhere in the string). The blank placeholder
  of rule 1 is a URL of the \<^verbatim>\<open>about:\<close> scheme. The fragment of the URL is given along with
  the URL.
\<close>

definition contains :: "string \<Rightarrow> string \<Rightarrow> bool" where
  "contains s sub = (\<exists>pre post. s = pre @ sub @ post)"

definition blank_url :: "string \<Rightarrow> bool" where
  "blank_url url = (\<exists>rest. url = ''about:'' @ rest)"

definition contains_any :: "string \<Rightarrow> string list \<Rightarrow> bool" where
  "contains_any s keywords = (\<exists>k \<in> set keywords. contains s k)"

definition Classify :: "string \<Rightarrow> string \<Rightarrow> string \<Rightarrow> LoginState" where
  "Classify currentURL fragment pageContent =
     (if blank_url currentURL then Indeterminate
      else if contains_any fragment must_be_logged_keywords then LoggedIn
      else if contains_any fragment must_not_logged_keywords then LoggedOut
      else if contains pageContent workspace_marker \<and> \<not> contains pageContent local_password_marker
      then LoggedIn
      else LoggedOut)"

text \<open>
  The events of credential entry and submission are the calls on page elements; only
  \<open>enter_credentials\<close> and \<open>click_login_button\<close> make them. A submit attempt is a
  lookup of the login button, the first call of \<open>click_login_button\<close>.
\<close>

fun is_form_event :: "event \<Rightarrow> bool" where
  "is_form_event (Ev_find_element loc) = True"
| "is_form_event (Ev_is_displayed el) = True"
| "is_form_event (Ev_scroll_into_view el) = True"
| "is_form_event (Ev_click el) = True"
| "is_form_event (Ev_wait_clickable loc) = True"
| "is_form_event (Ev_clear el) = True"
| "is_form_event (Ev_send_keys el txt) = True"
| "is_form_event _ = False"

definition is_submit :: "event \<Rightarrow> bool" where
  "is_submit ev = (ev = Ev_find_element (ById ''loginBtn''))"

definition submit_attempts :: "event list \<Rightarrow> nat" where
  "submit_attempts tr = length (filter is_submit tr)"

text \<open>
  Two frame properties of a program: every event it records satisfies \<open>P\<close>, and it
  leaves the \<open>initialized\<close> flag as it found it.
\<close>

definition emits :: "(event \<Rightarrow> bool) \<Rightarrow> ('w, 'a) prog \<Rightarrow> bool" where
  "emits P m = (\<forall>s. \<exists>evs. trace (snd (m s)) = trace s @ evs \<and> list_all P evs)"

definition keeps_flag :: "('w, 'a) prog \<Rightarrow> bool" where
  "keeps_flag m = (\<forall>s. initialized (snd (m s)) = initialized s)"

section \<open>A reference world\<close>

text \<open>
  A small portal to run the program against: a login page under the fragment
  \<^verbatim>\<open>#/login\<close> with the three form elements, one account, a workspace page under
  \<^verbatim>\<open>#/app_center\<close> once logged in, and a file system that holds pickled objects or
  undecodable bytes.
\<close>

datatype file_content = Corrupt | Pickled ATrustLoginStorage

record sim =
  sim_url :: string
  sim_page :: string
  sim_logged :: bool
  sim_user_field :: string
  sim_pass_field :: string
  sim_files :: "(string \<times> file_content) list"
  sim_cookies :: "cookie list"
  sim_local :: "(string \<times> pyval) list"

text \<open>
  The URLs of this world are plain ASCII without control characters or brackets; on such
  a string the library gives as fragment what follows the first \<^verbatim>\<open>#\<close>, and nothing when
  there is none.
\<close>

definition text_after_hash :: "string \<Rightarrow> string" where
  "text_after_hash url = (case dropWhile (\<lambda>c. c \<noteq> CHR ''#'') url of [] \<Rightarrow> [] | _ # f \<Rightarrow> f)"

definition on_login_page :: "sim \<Rightarrow> bool" where
  "on_login_page w = str_in ''login'' (text_after_hash (sim_url w))"

definition sim_get :: "string \<Rightarrow> (sim, unit) extcall" where
  "sim_get u w =
     (Inr (),
      if startswith u ''about:'' then w\<lparr>sim_url := u, sim_page := []\<rparr>
      else if sim_logged w then w\<lparr>sim_url := u @ ''#/app_center'', sim_page := workspace_marker\<rparr>
      else w\<lparr>sim_url := u @ ''#/login'', sim_page := local_password_marker\<rparr>)"

definition sim_find :: "locator \<Rightarrow> (sim, element) extcall" where
  "sim_find loc w =
     (case loc of
        ByXPath x \<Rightarrow> (Inl (Exception NoSuchElementException), w)
      | ById i \<Rightarrow>
          if \<not> on_login_page w then (Inl (Exception NoSuchElementException), w)
          else if i = ''userName'' then (Inr 1, w)
          else if i = ''password'' then (Inr 2, w)
          else if i = ''loginBtn'' then (Inr 3, w)
          else (Inl (Exception NoSuchElementException), w))"

definition sim_click :: "element \<Rightarrow> (sim, unit) extcall" where
  "sim_click el w =
     (Inr (),
      if el = 3 \<and> sim_user_field w = ''alice'' \<and> sim_pass_field w = ''secret''
      then w\<lparr>sim_url := takeWhile (\<lambda>c. c \<noteq> CHR ''#'') (sim_url w) @ ''#/app_center'',
             sim_page := workspace_marker, sim_logged := True\<rparr>
      else w)"

definition sim_wait_clickable :: "locator \<Rightarrow> (sim, unit) extcall" where
  "sim_wait_clickable loc w =
     (if on_login_page w then (Inr (), w) else (Inl (Exception TimeoutException), w))"

definition sim_clear :: "element \<Rightarrow> (sim, unit) extcall" where
  "sim_clear el w =
     (Inr (), if el = 1 then w\<lparr>sim_user_field := []\<rparr>
              else if el = 2 then w\<lparr>sim_pass_field := []\<rparr> else w)"

definition sim_send_keys :: "element \<Rightarrow> string \<Rightarrow> (sim, unit) extcall" where
  "sim_send_keys el txt w =
     (Inr (), if el = 1 then w\<lparr>sim_user_field := sim_user_field w @ txt\<rparr>
              else if el = 2 then w\<lparr>sim_pass_field := sim_pass_field w @ txt\<rparr> else w)"

definition sim_pickle_load :: "string \<Rightarrow> (sim, ATrustLoginStorage) extcall" where
  "sim_pickle_load p w =
     (case map_of (sim_files w) p of
        None \<Rightarrow> (Inl (Exception FileNotFoundError), w)
      | Some Corrupt \<Rightarrow> (Inl (Exception UnpicklingError), w)
      | Some (Pickled d) \<Rightarrow> (Inr d, w))"

definition portal :: "sim env" where
  "portal =
     \<lparr>drv_get = sim_get,
      drv_wait_ready = (\<lambda>w. (Inr (), w)),
      os_sleep = (\<lambda>d w. (Inr (), w)),
      drv_find_element = sim_find,
      el_is_displayed = (\<lambda>el w. (Inr True, w)),
      drv_scroll_into_view = (\<lambda>el w. (Inr (), w)),
      el_click = sim_click,
      drv_wait_clickable = sim_wait_clickable,
      el_clear = sim_clear,
      el_send_keys = sim_send_keys,
      os_path_exists = (\<lambda>p w. (Inr (map_of (sim_files w) p \<noteq> None), w)),
      pickle_load = sim_pickle_load,
      drv_delete_cookie =
        (\<lambda>n w. (Inr (), w\<lparr>sim_cookies := filter (\<lambda>c. map_of c ''name'' \<noteq> Some n) (sim_cookies w)\<rparr>)),
      drv_add_cookie = (\<lambda>c w. (Inr (), w\<lparr>sim_cookies := sim_cookies w @ [c]\<rparr>)),
      js_set_item =
        (\<lambda>k v w. (Inr (), w\<lparr>sim_local := (k, v) # filter (\<lambda>kv. fst kv \<noteq> k) (sim_local w)\<rparr>)),
      drv_current_url = (\<lambda>w. (Inr (sim_url w), w)),
      drv_page_source = (\<lambda>w. (Inr (sim_page w), w)),
      drv_quit = (\<lambda>w. (Inr (), w)),
      drv_get_cookies = (\<lambda>w. (Inr (sim_cookies w), w)),
      js_local_storage = (\<lambda>w. (Inr (sim_local w), w)),
      pickle_dump =
        (\<lambda>p d w. (Inr (), w\<lparr>sim_files := (p, Pickled d) # filter (\<lambda>f. fst f \<noteq> p) (sim_files w)\<rparr>)),
      urlparse_fragment = (\<lambda>url. Inr (text_after_hash url))\<rparr>"

text \<open>A browser that has not navigated yet, on an empty data directory.\<close>

definition fresh_browser :: sim where
  "fresh_browser =
     \<lparr>sim_url = ''about:blank'', sim_page = [], sim_logged = False, sim_user_field = [],
      sim_pass_field = [], sim_files = [], sim_cookies = [], sim_local = []\<rparr>"

definition demo_config :: config where
  "demo_config =
     \<lparr>data_dir = ''./data'', interactive = False, portal_address = ''https://portal.example/'',
      input_delay = 1 / 2, loading_delay = 5\<rparr>"

text \<open>The same browser showing a workspace page under a URL without fragment.\<close>

definition plain_browser :: sim where
  "plain_browser =
     fresh_browser\<lparr>sim_url := ''https://portal.example/home'', sim_page := workspace_marker\<rparr>"

text \<open>A data directory whose artifact file holds undecodable bytes.\<close>

definition corrupt_browser :: sim where
  "corrupt_browser = fresh_browser\<lparr>sim_files := [(''./data/ATrustLoginStorage.pkl'', Corrupt)]\<rparr>"

text \<open>An initialized session whose browser shows the blank page.\<close>

definition blank_session :: "sim session" where
  "blank_session = \<lparr>initialized = True, world = fresh_browser, trace = []\<rparr>"

text \<open>
  \<open>handled cfg s w\<close> is the session once the loop's error handler has run on \<open>s\<close>: two
  log lines, then the pause, which leaves the world \<open>w\<close>. \<open>pause_only_signals\<close> says
  that this pause, \<^verbatim>\<open>time.sleep(loading_delay)\<close>, is cut short by nothing but a signal
  (\<^verbatim>\<open>KeyboardInterrupt\<close>, \<^verbatim>\<open>SystemExit\<close>); sleeps of other lengths are left free.
\<close>

definition handled :: "config \<Rightarrow> 'w session \<Rightarrow> 'w \<Rightarrow> 'w session" where
  "handled cfg s w =
     s\<lparr>world := w,
       trace := trace s @
         [Ev_log Error ''An error occurred when trying to login, retrying ...'',
          Ev_log Error ''exception'', Ev_sleep (loading_delay cfg)]\<rparr>"

definition pause_only_signals :: "'w env \<Rightarrow> config \<Rightarrow> bool" where
  "pause_only_signals env cfg =
     (\<forall>w. case fst (os_sleep env (loading_delay cfg) w) of
            Inl e \<Rightarrow> \<not> is_Exception e
          | Inr u \<Rightarrow> True)"

text \<open>A configuration whose portal address is the blank page: no login form ever shows.\<close>

definition blank_config :: config where
  "blank_config = demo_config\<lparr>portal_address := ''about:blank''\<rparr>"

text \<open>A logged-in browser that holds one cookie and one local-storage entry.\<close>

definition session_browser :: sim where
  "session_browser =
     fresh_browser\<lparr>sim_url := ''https://portal.example/#/app_center'',
       sim_page := workspace_marker, sim_logged := True,
       sim_cookies := [[(''name'', PyStr ''sid''), (''value'', PyStr ''42''),
                        (''domain'', PyStr ''portal.example''), (''path'', PyStr ''/''),
                        (''expiry'', PyInt 1900000000), (''secure'', PyBool True),
                        (''httpOnly'', PyBool True), (''sameSite'', PyStr ''Lax'')]],
       sim_local := [(''token'', PyStr ''t0'')]\<rparr>"

text \<open>The events \<open>load_storage\<close> can record.\<close>

definition storage_event :: "event \<Rightarrow> bool" where
  "storage_event ev =
     (case ev of Ev_path_exists p \<Rightarrow> True | Ev_pickle_load p \<Rightarrow> True | Ev_delete_cookie n \<Rightarrow> True
      | Ev_add_cookie c \<Rightarrow> True | Ev_set_item k v \<Rightarrow> True | Ev_log l m \<Rightarrow> True | _ \<Rightarrow> False)"



text \<open>
  What a browser that deletes by name and appends on add holds after the cookies \<open>cs\<close>
  have been replayed into a jar \<open>jar\<close>.
\<close>

fun jar_after :: "cookie list \<Rightarrow> cookie list \<Rightarrow> cookie list" where
  "jar_after [] jar = jar"
| "jar_after (c # cs) jar =
     jar_after cs (filter (\<lambda>x. map_of x ''name'' \<noteq> map_of c ''name'') jar @ [c])"



section \<open>Running programs\<close>

lemma ret_apply: "ret v s = (Inr v, s)" by (simp add: ret_def)
lemma raise_apply: "raise e s = (Inl e, s)" by (simp add: raise_def)
lemma and_then_apply:
  "and_then m f s = (case m s of (Inl e, s') \<Rightarrow> (Inl e, s') | (Inr v, s') \<Rightarrow> f v s')"
  by (simp add: and_then_def)
lemma before_apply:
  "before m k s = (case m s of (Inl e, s') \<Rightarrow> (Inl e, s') | (Inr v, s') \<Rightarrow> k s')"
  by (simp add: before_def and_then_def)
lemma ext_apply:
  "ext ev call s =
     (case call (world s) of (r, w') \<Rightarrow> (r, s\<lparr>world := w', trace := trace s @ [ev]\<rparr>))"
  by (simp add: ext_def)
lemma log_msg_apply: "log_msg lvl msg s = (Inr (), s\<lparr>trace := trace s @ [Ev_log lvl msg]\<rparr>)"
  by (simp add: log_msg_def)
lemma try_except_apply:
  "try_except m c h s =
     (case m s of (Inl e, s') \<Rightarrow> if c e then h e s' else (Inl e, s') | (Inr v, s') \<Rightarrow> (Inr v, s'))"
  by (simp add: try_except_def)

lemma and_then_Inr: "m s = (Inr v, s') \<Longrightarrow> and_then m f s = f v s'"
  by (simp add: and_then_apply)
lemma and_then_Inl: "m s = (Inl e, s') \<Longrightarrow> and_then m f s = (Inl e, s')"
  by (simp add: and_then_apply)
lemma before_Inr: "m s = (Inr v, s') \<Longrightarrow> before m k s = k s'"
  by (simp add: before_apply)
lemma before_Inl: "m s = (Inl e, s') \<Longrightarrow> before m k s = (Inl e, s')"
  by (simp add: before_apply)

text \<open>Evaluating a program on a concrete session unfolds the methods and the reference world.\<close>

lemmas run =
  ret_apply raise_apply and_then_apply before_apply ext_apply log_msg_apply try_except_apply
  open_portal_def wait_login_page_def time_sleep_def delay_input_def delay_loading_def
  scroll_and_click_def find_element_def wait_clickable_def enter_credentials_def
  click_login_button_def load_storage_def set_initialized_def init_steps_def init_def
  current_url_def page_source_def is_logged_def close_def update_storage_def
  submit_credentials_def login_attempt_def login_def relogin_step_def keepalive_step_def
  cycle_body_def error_handler_def cycle_def main_def
  new_session_def storage_path_def startswith_def text_after_hash_def sleep_overflows_def
  must_be_logged_keywords_def must_not_logged_keywords_def workspace_marker_def
  local_password_marker_def

lemmas sim_run =
  portal_def fresh_browser_def plain_browser_def corrupt_browser_def blank_session_def
  session_browser_def blank_config_def demo_config_def on_login_page_def sim_get_def sim_find_def sim_click_def
  sim_wait_clickable_def sim_clear_def sim_send_keys_def sim_pickle_load_def

lemma pair_fst_snd: "fst x = a \<Longrightarrow> x = (a, snd x)"
  by (cases x) simp

lemma truthy_iff: "truthy l \<longleftrightarrow> l = Some True"
  by (cases l) auto

section \<open>Frame rules\<close>

named_theorems frame

lemma emitsD:
  assumes "emits P m" and "m s = (r, s')"
  shows "\<exists>evs. trace s' = trace s @ evs \<and> list_all P evs"
  using assms unfolding emits_def by (metis snd_conv)

lemma keeps_flagD: "keeps_flag m \<Longrightarrow> m s = (r, s') \<Longrightarrow> initialized s' = initialized s"
  unfolding keeps_flag_def by (metis snd_conv)

lemma emits_weaken: "emits P m \<Longrightarrow> (\<And>e. P e \<Longrightarrow> Q e) \<Longrightarrow> emits Q m"
  unfolding emits_def list_all_iff by blast

lemma emits_ret [frame]: "emits P (ret v)"
  by (simp add: emits_def ret_def)
lemma emits_raise [frame]: "emits P (raise e)"
  by (simp add: emits_def raise_def)
lemma emits_log [frame]: "P (Ev_log lvl msg) \<Longrightarrow> emits P (log_msg lvl msg)"
  by (simp add: emits_def log_msg_def)
lemma emits_ext [frame]: "P ev \<Longrightarrow> emits P (ext ev call)"
  by (simp add: emits_def ext_def split: prod.split)
lemma emits_set_initialized [frame]: "emits P set_initialized"
  by (simp add: emits_def set_initialized_def)

lemma emits_and_then [frame]:
  assumes "emits P m" and "\<And>v. emits P (f v)"
  shows "emits P (and_then m f)"
  unfolding emits_def
proof
  fix s
  obtain r s1 where m: "m s = (r, s1)" by (cases "m s")
  from emitsD [OF assms(1) m] obtain evs where
    e1: "trace s1 = trace s @ evs" "list_all P evs" by blast
  show "\<exists>evs. trace (snd (and_then m f s)) = trace s @ evs \<and> list_all P evs"
  proof (cases r)
    case (Inl e)
    with m e1 show ?thesis by (auto simp: and_then_apply)
  next
    case (Inr v)
    obtain r2 s2 where f: "f v s1 = (r2, s2)" by (cases "f v s1")
    from emitsD [OF assms(2) f] obtain evs2 where
      e2: "trace s2 = trace s1 @ evs2" "list_all P evs2" by blast
    have "trace s2 = trace s @ (evs @ evs2) \<and> list_all P (evs @ evs2)"
      using e1 e2 by simp
    with Inr m f show ?thesis by (auto simp: and_then_apply)
  qed
qed

lemma emits_before [frame]: "emits P m \<Longrightarrow> emits P k \<Longrightarrow> emits P (before m k)"
  unfolding before_def by (rule emits_and_then)

lemma emits_try_except [frame]:
  assumes "emits P m" and "\<And>e. emits P (h e)"
  shows "emits P (try_except m c h)"
  unfolding emits_def
proof
  fix s
  obtain r s1 where m: "m s = (r, s1)" by (cases "m s")
  from emitsD [OF assms(1) m] obtain evs where
    e1: "trace s1 = trace s @ evs" "list_all P evs" by blast
  show "\<exists>evs. trace (snd (try_except m c h s)) = trace s @ evs \<and> list_all P evs"
  proof (cases r)
    case (Inr v)
    with m e1 show ?thesis by (auto simp: try_except_apply)
  next
    case (Inl e)
    show ?thesis
    proof (cases "c e")
      case False
      with Inl m e1 show ?thesis by (auto simp: try_except_apply)
    next
      case True
      obtain r2 s2 where f: "h e s1 = (r2, s2)" by (cases "h e s1")
      from emitsD [OF assms(2) f] obtain evs2 where
        e2: "trace s2 = trace s1 @ evs2" "list_all P evs2" by blast
      have "trace s2 = trace s @ (evs @ evs2) \<and> list_all P (evs @ evs2)"
        using e1 e2 by simp
      with Inl True m f show ?thesis by (auto simp: try_except_apply)
    qed
  qed
qed

lemma emits_if [frame]: "emits P a \<Longrightarrow> emits P b \<Longrightarrow> emits P (if c then a else b)"
  by simp

lemma emits_case_sum [frame]:
  "(\<And>e. emits P (f e)) \<Longrightarrow> (\<And>v. emits P (g v)) \<Longrightarrow>
     emits P (case x of Inl e \<Rightarrow> f e | Inr v \<Rightarrow> g v)"
  by (cases x) simp_all

lemma emits_do_all_Nil [frame]: "emits P (do_all [])"
  by (simp add: emits_ret)
lemma emits_do_all_Cons [frame]: "emits P m \<Longrightarrow> emits P (do_all ms) \<Longrightarrow> emits P (do_all (m # ms))"
  by (simp add: emits_before)

lemma keeps_ret [frame]: "keeps_flag (ret v)"
  by (simp add: keeps_flag_def ret_def)
lemma keeps_raise [frame]: "keeps_flag (raise e)"
  by (simp add: keeps_flag_def raise_def)
lemma keeps_log [frame]: "keeps_flag (log_msg lvl msg)"
  by (simp add: keeps_flag_def log_msg_def)
lemma keeps_ext [frame]: "keeps_flag (ext ev call)"
  by (simp add: keeps_flag_def ext_def split: prod.split)

lemma keeps_and_then [frame]:
  assumes "keeps_flag m" and "\<And>v. keeps_flag (f v)"
  shows "keeps_flag (and_then m f)"
  unfolding keeps_flag_def
proof
  fix s
  obtain r s1 where m: "m s = (r, s1)" by (cases "m s")
  have i1: "initialized s1 = initialized s" by (rule keeps_flagD [OF assms(1) m])
  show "initialized (snd (and_then m f s)) = initialized s"
  proof (cases r)
    case (Inl e)
    with m i1 show ?thesis by (simp add: and_then_apply)
  next
    case (Inr v)
    obtain r2 s2 where f: "f v s1 = (r2, s2)" by (cases "f v s1")
    have "initialized s2 = initialized s1" by (rule keeps_flagD [OF assms(2) f])
    with Inr m f i1 show ?thesis by (simp add: and_then_apply)
  qed
qed

lemma keeps_before [frame]: "keeps_flag m \<Longrightarrow> keeps_flag k \<Longrightarrow> keeps_flag (before m k)"
  unfolding before_def by (rule keeps_and_then)

lemma keeps_try_except [frame]:
  assumes "keeps_flag m" and "\<And>e. keeps_flag (h e)"
  shows "keeps_flag (try_except m c h)"
  unfolding keeps_flag_def
proof
  fix s
  obtain r s1 where m: "m s = (r, s1)" by (cases "m s")
  have i1: "initialized s1 = initialized s" by (rule keeps_flagD [OF assms(1) m])
  show "initialized (snd (try_except m c h s)) = initialized s"
  proof (cases r)
    case (Inr v)
    with m i1 show ?thesis by (simp add: try_except_apply)
  next
    case (Inl e)
    obtain r2 s2 where f: "h e s1 = (r2, s2)" by (cases "h e s1")
    have "initialized s2 = initialized s1" by (rule keeps_flagD [OF assms(2) f])
    with Inl m f i1 show ?thesis by (simp add: try_except_apply)
  qed
qed

lemma keeps_if [frame]: "keeps_flag a \<Longrightarrow> keeps_flag b \<Longrightarrow> keeps_flag (if c then a else b)"
  by simp

lemma keeps_case_sum [frame]:
  "(\<And>e. keeps_flag (f e)) \<Longrightarrow> (\<And>v. keeps_flag (g v)) \<Longrightarrow>
     keeps_flag (case x of Inl e \<Rightarrow> f e | Inr v \<Rightarrow> g v)"
  by (cases x) simp_all

lemma keeps_do_all_Nil [frame]: "keeps_flag (do_all [])"
  by (simp add: keeps_ret)
lemma keeps_do_all_Cons [frame]:
  "keeps_flag m \<Longrightarrow> keeps_flag (do_all ms) \<Longrightarrow> keeps_flag (do_all (m # ms))"
  by (simp add: keeps_before)

section \<open>Frames of the methods\<close>

lemma emits_time_sleep [frame]: "P (Ev_sleep d) \<Longrightarrow> emits P (time_sleep env d)"
  unfolding time_sleep_def by (intro frame)

lemma keeps_time_sleep [frame]: "keeps_flag (time_sleep env d)"
  unfolding time_sleep_def by (intro frame)

lemma emits_restore_cookies [frame]:
  "(\<And>n. P (Ev_delete_cookie n)) \<Longrightarrow> (\<And>c. P (Ev_add_cookie c)) \<Longrightarrow> emits P (restore_cookies env cs)"
proof (induction cs)
  case Nil
  show ?case by (simp add: emits_ret)
next
  case (Cons c cs)
  show ?case
    by (cases "map_of c ''name''") (auto intro!: frame Cons)
qed

lemma keeps_restore_cookies [frame]: "keeps_flag (restore_cookies env cs)"
proof (induction cs)
  case Nil
  show ?case by (simp add: keeps_ret)
next
  case (Cons c cs)
  show ?case
    by (cases "map_of c ''name''") (auto intro!: frame Cons)
qed

lemma emits_restore_local_storage [frame]:
  "(\<And>k v. P (Ev_set_item k v)) \<Longrightarrow> emits P (restore_local_storage env kvs)"
  by (induction env kvs rule: restore_local_storage.induct) (auto intro!: frame)

lemma keeps_restore_local_storage [frame]: "keeps_flag (restore_local_storage env kvs)"
  by (induction env kvs rule: restore_local_storage.induct) (auto intro!: frame)

lemma emits_load_storage:
  "emits storage_event (load_storage env cfg)"
  unfolding load_storage_def by (intro frame) (simp_all add: storage_event_def)

lemma keeps_load_storage [frame]: "keeps_flag (load_storage env cfg)"
  unfolding load_storage_def by (intro frame)

section \<open>What the string operations compute\<close>

lemma startswith_iff: "startswith s p \<longleftrightarrow> (\<exists>post. s = p @ post)"
  unfolding startswith_def
  by (metis append_eq_conv_conj append_take_drop_id)

lemma str_in_occurs: "str_in sub s \<longleftrightarrow> (\<exists>pre post. s = pre @ sub @ post)"
proof (induction s)
  case Nil
  then show ?case by auto
next
  case (Cons c cs)
  show ?case
  proof
    assume "str_in sub (c # cs)"
    then consider "startswith (c # cs) sub" | "str_in sub cs" by auto
    then show "\<exists>pre post. c # cs = pre @ sub @ post"
    proof cases
      case 1
      then obtain post where "c # cs = sub @ post" by (auto simp: startswith_iff)
      then have "c # cs = [] @ sub @ post" by simp
      then show ?thesis by blast
    next
      case 2
      then obtain pre post where "cs = pre @ sub @ post" using Cons.IH by blast
      then have "c # cs = (c # pre) @ sub @ post" by simp
      then show ?thesis by blast
    qed
  next
    assume "\<exists>pre post. c # cs = pre @ sub @ post"
    then obtain pre post where e: "c # cs = pre @ sub @ post" by blast
    show "str_in sub (c # cs)"
    proof (cases pre)
      case Nil
      with e have "startswith (c # cs) sub" by (auto simp: startswith_iff)
      then show ?thesis by simp
    next
      case (Cons a pre')
      with e have "cs = pre' @ sub @ post" by simp
      then have "str_in sub cs" using Cons.IH by blast
      then show ?thesis by simp
    qed
  qed
qed

lemma str_in_iff: "str_in sub s \<longleftrightarrow> contains s sub"
  by (simp add: str_in_occurs contains_def)

lemma startswith_about: "startswith url ''about:'' \<longleftrightarrow> blank_url url"
  unfolding blank_url_def by (rule startswith_iff)

lemma list_ex_str_in: "list_ex (\<lambda>k. str_in k s) keywords \<longleftrightarrow> contains_any s keywords"
  by (simp add: list_ex_iff contains_any_def str_in_iff)

lemma list_ex_contains: "list_ex (contains s) keywords \<longleftrightarrow> contains_any s keywords"
  by (simp add: list_ex_iff contains_any_def)

lemma text_after_hash_split:
  "CHR ''#'' \<notin> set pre \<Longrightarrow> text_after_hash (pre @ CHR ''#'' # frag) = frag"
proof -
  assume "CHR ''#'' \<notin> set pre"
  then have "dropWhile (\<lambda>c. c \<noteq> CHR ''#'') (pre @ CHR ''#'' # frag) = CHR ''#'' # frag"
    by (subst dropWhile_append2) auto
  then show ?thesis by (simp add: text_after_hash_def)
qed

lemma text_after_hash_none: "CHR ''#'' \<notin> set url \<Longrightarrow> text_after_hash url = []"
proof -
  assume "CHR ''#'' \<notin> set url"
  then have "dropWhile (\<lambda>c. c \<noteq> CHR ''#'') url = []"
    by (subst dropWhile_eq_Nil_conv) auto
  then show ?thesis unfolding text_after_hash_def by (simp only: list.case)
qed

section \<open>Detection\<close>

text \<open>
  When \<^verbatim>\<open>urlparse\<close> raises on the URL the browser reports, \<open>is_logged\<close> raises the same
  exception after its two reads of the URL.
\<close>

lemma is_logged_urlparse_raises:
  assumes "drv_current_url env (world s) = (Inr url, w1)"
    and "drv_current_url env w1 = (Inr url, w2)"
    and "\<not> blank_url url"
    and "urlparse_fragment env url = Inl e"
  shows "is_logged env s =
           (Inl e, s\<lparr>world := w2, trace := trace s @ [Ev_current_url, Ev_current_url]\<rparr>)"
  using assms
  by (simp add: is_logged_def current_url_def and_then_apply ext_apply raise_apply
      startswith_about)

text \<open>
  C1. \<open>is_logged\<close> computes \<open>Classify\<close>. Let the browser report the URL \<open>url\<close>; unless
  it is the blank placeholder, let it report the same URL at the second read and let
  \<^verbatim>\<open>urlparse\<close> give its fragment; and where the fragment holds no keyword of either list,
  let the browser report the page \<open>page\<close> (twice, when the workspace marker is in it).
  Then \<open>is_logged\<close> returns, and its result is the state that the ordered rules of
  section 4.3 give: indeterminate on the blank placeholder, whatever the fragment and the
  page; else logged in when the fragment contains a must-be-logged keyword, whatever the
  page; else logged out when it contains a must-not-logged keyword, whatever the page;
  else logged in exactly when the page contains the workspace marker and not the
  local-password marker.
\<close>

theorem is_logged_classify:
  assumes "drv_current_url env (world s) = (Inr url, w1)"
    and "\<not> blank_url url \<Longrightarrow>
           drv_current_url env w1 = (Inr url, w2) \<and> urlparse_fragment env url = Inr fragment"
    and "\<not> blank_url url \<Longrightarrow>
         \<not> contains_any fragment (must_be_logged_keywords @ must_not_logged_keywords) \<Longrightarrow>
           drv_page_source env w2 = (Inr page, w3) \<and>
           (contains page workspace_marker \<longrightarrow> drv_page_source env w3 = (Inr page, w4))"
  shows "\<exists>r s'. is_logged env s = (Inr r, s') \<and> login_state r = Classify url fragment page"
proof (cases "blank_url url")
  case True
  with assms(1) show ?thesis
    by (simp add: is_logged_def current_url_def and_then_apply ext_apply ret_apply
        startswith_about Classify_def)
next
  case False
  with assms(2) have u: "drv_current_url env w1 = (Inr url, w2)"
    and f: "urlparse_fragment env url = Inr fragment" by simp_all
  show ?thesis
  proof (cases "contains_any fragment (must_be_logged_keywords @ must_not_logged_keywords)")
    case True
    with False assms(1) u f show ?thesis
      by (auto simp add: is_logged_def current_url_def and_then_apply ext_apply ret_apply
          startswith_about list_ex_str_in Classify_def contains_any_def)
  next
    case undecided: False
    with False assms(3) have p: "drv_page_source env w2 = (Inr page, w3)"
      and q: "contains page workspace_marker \<longrightarrow> drv_page_source env w3 = (Inr page, w4)"
      by simp_all
    from undecided have n: "\<not> contains_any fragment must_be_logged_keywords"
      "\<not> contains_any fragment must_not_logged_keywords"
      by (auto simp add: contains_any_def)
    show ?thesis
      using False assms(1) u f p q n
      by (simp add: is_logged_def current_url_def page_source_def and_then_apply ext_apply
          ret_apply startswith_about list_ex_contains str_in_iff Classify_def)
  qed
qed

text \<open>
  A workspace page under a URL without fragment: rule 4 decides, on both reads of the
  page.
\<close>

theorem is_logged_classify_witness:
  "\<exists>r s'. is_logged portal (new_session plain_browser) = (Inr r, s') \<and> login_state r = LoggedIn"
proof -
  let ?url = "''https://portal.example/home''"
  have b: "\<not> blank_url ?url"
    by (simp add: startswith_about [symmetric] startswith_def)
  have k: "\<not> contains_any [] (must_be_logged_keywords @ must_not_logged_keywords)"
    by (simp add: list_ex_str_in [symmetric] must_be_logged_keywords_def
        must_not_logged_keywords_def)
  have m: "contains workspace_marker workspace_marker"
    by (simp add: str_in_iff [symmetric] workspace_marker_def startswith_def)
  have l: "\<not> contains workspace_marker local_password_marker"
    by (simp add: str_in_iff [symmetric] workspace_marker_def local_password_marker_def
        startswith_def)
  have c: "Classify ?url [] workspace_marker = LoggedIn"
    using b k m l by (simp add: Classify_def contains_any_def)
  have 1: "drv_current_url portal (world (new_session plain_browser)) = (Inr ?url, plain_browser)"
    by (simp add: portal_def new_session_def plain_browser_def)
  have 2: "drv_current_url portal plain_browser = (Inr ?url, plain_browser) \<and>
           urlparse_fragment portal ?url = Inr []"
    by (simp add: portal_def plain_browser_def text_after_hash_def)
  have 3: "drv_page_source portal plain_browser = (Inr workspace_marker, plain_browser) \<and>
           (contains workspace_marker workspace_marker \<longrightarrow>
              drv_page_source portal plain_browser = (Inr workspace_marker, plain_browser))"
    by (simp add: portal_def plain_browser_def)
  show ?thesis
    using is_logged_classify [OF 1 2 3] by (simp add: c)
qed

section \<open>Initialization\<close>

lemma keeps_open_portal: "keeps_flag (open_portal env cfg)"
  unfolding open_portal_def by (intro frame)
lemma keeps_wait_login_page: "keeps_flag (wait_login_page env)"
  unfolding wait_login_page_def by (intro frame)
lemma keeps_delay_loading: "keeps_flag (delay_loading env cfg)"
  unfolding delay_loading_def by (intro frame)
lemma keeps_delay_input: "keeps_flag (delay_input env cfg)"
  unfolding delay_input_def by (intro frame)

lemmas init_flags =
  keeps_flagD [OF keeps_open_portal] keeps_flagD [OF keeps_wait_login_page]
  keeps_flagD [OF keeps_delay_loading] keeps_flagD [OF keeps_load_storage]

lemma init_steps_apply:
  "init_steps env cfg s =
     (case open_portal env cfg s of
        (Inl e, s') \<Rightarrow> (Inl e, s')
      | (Inr u, sa) \<Rightarrow>
     (case wait_login_page env sa of
        (Inl e, s') \<Rightarrow> (Inl e, s')
      | (Inr u, sb) \<Rightarrow>
     (case delay_loading env cfg sb of
        (Inl e, s') \<Rightarrow> (Inl e, s')
      | (Inr u, sc) \<Rightarrow>
     (case load_storage env cfg sc of
        (Inl e, s') \<Rightarrow> (Inl e, s')
      | (Inr u, sd) \<Rightarrow> (Inr (), sd\<lparr>initialized := True\<rparr>)))))"
  by (simp add: init_steps_def before_apply set_initialized_def ret_apply
      split: prod.splits sum.splits)

text \<open>
  C10. On a session that is not initialized, \<open>init\<close> sets the flag only as its last
  step: when it returns, the four steps (open the portal, wait for the page, pause, restore
  the stored session) have all returned and the flag is set on the state the last of
  them left; when any step raises, the flag is still unset, so the next call of \<open>init\<close>
  runs the whole sequence again.
\<close>

theorem init_flag_last:
  assumes "\<not> initialized s"
  shows "case init env cfg s of
           (Inr u, s') \<Rightarrow>
             initialized s' \<and>
             (\<exists>sa sb sc sd.
                open_portal env cfg s = (Inr (), sa) \<and> wait_login_page env sa = (Inr (), sb) \<and>
                delay_loading env cfg sb = (Inr (), sc) \<and> load_storage env cfg sc = (Inr (), sd) \<and>
                s' = sd\<lparr>initialized := True\<rparr>)
         | (Inl e, s') \<Rightarrow> \<not> initialized s' \<and> init env cfg s' = init_steps env cfg s'"
  using assms
  by (auto simp add: init_def init_steps_apply split: prod.splits sum.splits dest: init_flags)

text \<open>
  With an undecodable artifact file \<open>init\<close> raises and leaves the flag unset; on an empty
  data directory it returns with the flag set.
\<close>

theorem init_flag_last_witness:
  "\<not> initialized (snd (init portal demo_config (new_session corrupt_browser))) \<and>
   initialized (snd (init portal demo_config (new_session fresh_browser)))"
proof -
  have a: "fst (init portal demo_config (new_session corrupt_browser)) = Inl (Exception UnpicklingError)"
    by (simp add: run sim_run)
  have b: "fst (init portal demo_config (new_session fresh_browser)) = Inr ()"
    by (simp add: run sim_run)
  have n: "\<not> initialized (new_session w)" for w :: sim
    by (simp add: new_session_def)
  show ?thesis
    using a b init_flag_last [OF n, of portal demo_config corrupt_browser]
      init_flag_last [OF n, of portal demo_config fresh_browser]
    by (auto split: prod.splits sum.splits)
qed

section \<open>Start-up without, and with a broken, artifact file\<close>

text \<open>
  C6. When \<^verbatim>\<open>os.path.exists\<close> finds no artifact file, \<open>load_storage\<close> returns normally
  having made that one call and no call on the browser (cookies and local storage are not
  touched), \<open>init\<close> completes and sets the flag, and \<open>main\<close> goes on to its loop.
\<close>

theorem no_file_no_fault:
  assumes "open_portal env cfg (new_session w) = (Inr (), sa)"
    and "wait_login_page env sa = (Inr (), sb)"
    and "delay_loading env cfg sb = (Inr (), sc)"
    and "os_path_exists env (storage_path cfg) (world sc) = (Inr False, w')"
  shows "load_storage env cfg sc =
           (Inr (), sc\<lparr>world := w', trace := trace sc @ [Ev_path_exists (storage_path cfg)]\<rparr>) \<and>
         init env cfg (new_session w) =
           (Inr (), sc\<lparr>world := w', trace := trace sc @ [Ev_path_exists (storage_path cfg)],
                       initialized := True\<rparr>) \<and>
         main n env cfg username password keepalive w =
           main_loop n env cfg username password keepalive
             (sc\<lparr>world := w', trace := trace sc @ [Ev_path_exists (storage_path cfg)],
                  initialized := True\<rparr>)"
proof -
  have l: "load_storage env cfg sc =
           (Inr (), sc\<lparr>world := w', trace := trace sc @ [Ev_path_exists (storage_path cfg)]\<rparr>)"
    using assms(4) by (simp add: load_storage_def try_except_apply and_then_apply ext_apply ret_apply)
  have i: "init env cfg (new_session w) =
           (Inr (), sc\<lparr>world := w', trace := trace sc @ [Ev_path_exists (storage_path cfg)],
                       initialized := True\<rparr>)"
    using assms(1-3) l by (simp add: init_def init_steps_apply new_session_def)
  show ?thesis using l i by (simp add: main_def)
qed

text \<open>A first start on an empty data directory.\<close>

theorem no_file_no_fault_witness:
  "init portal demo_config (new_session fresh_browser) =
     (Inr (),
      \<lparr>initialized = True,
       world = fresh_browser\<lparr>sim_url := ''https://portal.example/#/login'',
                             sim_page := local_password_marker\<rparr>,
       trace = [Ev_get ''https://portal.example/'', Ev_wait_ready, Ev_sleep 5,
                Ev_path_exists ''./data/ATrustLoginStorage.pkl'']\<rparr>)"
proof -
  let ?w = "fresh_browser\<lparr>sim_url := ''https://portal.example/#/login'',
                           sim_page := local_password_marker\<rparr>"
  let ?sa = "\<lparr>initialized = False, world = ?w, trace = [Ev_get ''https://portal.example/'']\<rparr>"
  let ?sb = "?sa\<lparr>trace := [Ev_get ''https://portal.example/'', Ev_wait_ready]\<rparr>"
  let ?sc = "?sa\<lparr>trace := [Ev_get ''https://portal.example/'', Ev_wait_ready, Ev_sleep 5]\<rparr>"
  have 1: "open_portal portal demo_config (new_session fresh_browser) = (Inr (), ?sa)"
    by (simp add: run sim_run)
  have 2: "wait_login_page portal ?sa = (Inr (), ?sb)"
    by (simp add: run sim_run)
  have 3: "delay_loading portal demo_config ?sb = (Inr (), ?sc)"
    by (simp add: run sim_run)
  have 4: "os_path_exists portal (storage_path demo_config) (world ?sc) = (Inr False, ?w)"
    by (simp add: run sim_run)
  show ?thesis
    using no_file_no_fault [OF 1 2 3 4, of 0 "''alice''" "''secret''" 0]
    by (simp add: storage_path_def demo_config_def)
qed

text \<open>
  C7 as the specification states it (a decode error is logged and start-up goes on with
  empty artifacts) fails on the source: \<open>load_storage\<close> catches \<^verbatim>\<open>FileNotFoundError\<close> only.
  With undecodable bytes in the file, \<open>main\<close> ends with the decode error before its
  first cycle, and the session is left uninitialized.
\<close>

theorem corrupt_file_counterexample:
  "map_option fst (main 1 portal demo_config ''alice'' ''secret'' 200 corrupt_browser) =
     Some (Exception UnpicklingError) \<and>
   \<not> initialized (snd (init portal demo_config (new_session corrupt_browser)))"
  by (simp add: run sim_run)

text \<open>
  C7, amended. When the artifact file exists and unpickling it raises anything but
  \<^verbatim>\<open>FileNotFoundError\<close>, the error is not handled: it leaves \<open>load_storage\<close> and
  \<open>init\<close>, the flag stays unset, and since \<open>main\<close> calls \<open>init\<close> outside the
  \<^verbatim>\<open>try\<close> of its loop, \<open>main\<close> ends with that error after the two file calls, whatever
  the number of cycles allowed.
\<close>

theorem decode_error_ends_main:
  assumes "open_portal env cfg (new_session w) = (Inr (), sa)"
    and "wait_login_page env sa = (Inr (), sb)"
    and "delay_loading env cfg sb = (Inr (), sc)"
    and "os_path_exists env (storage_path cfg) (world sc) = (Inr True, w1)"
    and "pickle_load env (storage_path cfg) w1 = (Inl e, w2)"
    and "\<not> is_FileNotFoundError e"
  shows "main n env cfg username password keepalive w =
           Some (e, sc\<lparr>world := w2,
                       trace := trace sc @ [Ev_path_exists (storage_path cfg),
                                            Ev_pickle_load (storage_path cfg)]\<rparr>) \<and>
         \<not> initialized sc"
proof -
  have l: "load_storage env cfg sc =
           (Inl e, sc\<lparr>world := w2,
                       trace := trace sc @ [Ev_path_exists (storage_path cfg),
                                            Ev_pickle_load (storage_path cfg)]\<rparr>)"
    using assms(4-6)
    by (simp add: load_storage_def try_except_apply and_then_apply ext_apply ret_apply)
  have f: "\<not> initialized sc"
    using assms(1-3) init_flags by (fastforce simp: new_session_def)
  show ?thesis
    using assms(1-3) l f by (simp add: main_def init_def init_steps_apply new_session_def)
qed

text \<open>The same start-up, step by step.\<close>

theorem decode_error_ends_main_witness:
  "main 5 portal demo_config ''alice'' ''secret'' 200 corrupt_browser =
     Some (Exception UnpicklingError,
       \<lparr>initialized = False,
        world = corrupt_browser\<lparr>sim_url := ''https://portal.example/#/login'',
                                sim_page := local_password_marker\<rparr>,
        trace = [Ev_get ''https://portal.example/'', Ev_wait_ready, Ev_sleep 5,
                 Ev_path_exists ''./data/ATrustLoginStorage.pkl'',
                 Ev_pickle_load ''./data/ATrustLoginStorage.pkl'']\<rparr>)"
proof -
  let ?w = "corrupt_browser\<lparr>sim_url := ''https://portal.example/#/login'',
                             sim_page := local_password_marker\<rparr>"
  let ?sa = "\<lparr>initialized = False, world = ?w, trace = [Ev_get ''https://portal.example/'']\<rparr>"
  let ?sb = "?sa\<lparr>trace := [Ev_get ''https://portal.example/'', Ev_wait_ready]\<rparr>"
  let ?sc = "?sa\<lparr>trace := [Ev_get ''https://portal.example/'', Ev_wait_ready, Ev_sleep 5]\<rparr>"
  have 1: "open_portal portal demo_config (new_session corrupt_browser) = (Inr (), ?sa)"
    by (simp add: run sim_run)
  have 2: "wait_login_page portal ?sa = (Inr (), ?sb)"
    by (simp add: run sim_run)
  have 3: "delay_loading portal demo_config ?sb = (Inr (), ?sc)"
    by (simp add: run sim_run)
  have 4: "os_path_exists portal (storage_path demo_config) (world ?sc) = (Inr True, ?w)"
    by (simp add: run sim_run)
  have 5: "pickle_load portal (storage_path demo_config) ?w = (Inl (Exception UnpicklingError), ?w)"
    by (simp add: run sim_run)
  have 6: "\<not> is_FileNotFoundError (Exception UnpicklingError)" by simp
  show ?thesis
    using decode_error_ends_main [OF 1 2 3 4 5 6, of 5 "''alice''" "''secret''" 200]
    by (simp add: storage_path_def demo_config_def)
qed

section \<open>What callers do with an indeterminate detection\<close>

text \<open>
  C2 as the specification states it (on \<^verbatim>\<open>None\<close> callers do not act) fails on the source:
  both callers test the result for truth, and \<^verbatim>\<open>None\<close> is falsy. On the blank page
  detection gives \<^verbatim>\<open>None\<close>; \<open>login\<close> still starts credential entry (it looks for the
  login-method switch and waits for the user-name field), and the loop's first statement
  navigates to the portal and submits the credentials.
\<close>

theorem indeterminate_acted_on_counterexample:
  "fst (is_logged portal blank_session) = Inr None \<and>
   filter is_form_event (trace (snd (login portal demo_config ''alice'' ''secret'' blank_session))) =
     [Ev_find_element (ByXPath local_password_xpath), Ev_wait_clickable (ById ''userName'')] \<and>
   submit_attempts
     (trace (snd (relogin_step portal demo_config ''alice'' ''secret'' blank_session))) = 1"
  by (simp add: run sim_run submit_attempts_def is_submit_def)

text \<open>
  C2, amended. An indeterminate detection is treated as logged out: on an initialized
  session where \<open>is_logged\<close> returns \<^verbatim>\<open>None\<close>, \<open>login\<close> goes on to lines 175 to 186
  (credential entry, submission, second detection), and the first statement of the loop
  logs the lost session, opens the portal, pauses and calls \<open>login\<close>.
\<close>

theorem indeterminate_treated_as_logged_out:
  assumes "initialized s" and "is_logged env s = (Inr None, s1)"
  shows "login env cfg username password s = login_attempt env cfg username password s1 \<and>
         relogin_step env cfg username password s =
           before (log_msg Info ''Session lost. Trying to login again ...'')
             (before (open_portal env cfg)
             (before (delay_loading env cfg)
             (and_then (login env cfg username password) (\<lambda>r.
                if r = Some True
                then before (delay_loading env cfg) (delay_loading env cfg)
                else ret ())))) s1"
  using assms
  by (simp add: login_def relogin_step_def init_def before_apply and_then_apply)

theorem indeterminate_treated_as_logged_out_witness:
  "login portal demo_config ''alice'' ''secret'' blank_session =
     login_attempt portal demo_config ''alice'' ''secret''
       (blank_session\<lparr>trace := [Ev_current_url]\<rparr>)"
proof -
  have 1: "initialized blank_session" by (simp add: blank_session_def)
  have 2: "is_logged portal blank_session = (Inr None, blank_session\<lparr>trace := [Ev_current_url]\<rparr>)"
    by (simp add: run sim_run)
  show ?thesis
    using indeterminate_treated_as_logged_out [OF 1 2] by simp
qed

section \<open>The result of login\<close>

lemma login_attempt_result:
  "login_attempt env cfg username password s = (Inr r, s') \<Longrightarrow> r = Some True \<or> r = None"
  by (auto simp add: login_attempt_def before_apply and_then_apply ret_apply
      split: prod.splits sum.splits if_splits)

lemma login_result:
  "login env cfg username password s = (Inr r, s') \<Longrightarrow> r = Some True \<or> r = None"
  by (auto simp add: login_def before_apply and_then_apply ret_apply
      split: prod.splits sum.splits if_splits dest: login_attempt_result)

text \<open>
  C3 as the specification states it (an explicit failure result) fails on the source: with
  a wrong password the second detection gives \<^verbatim>\<open>False\<close> and \<open>login\<close> falls off its end,
  returning \<^verbatim>\<open>None\<close>, not \<^verbatim>\<open>False\<close>.
\<close>

theorem login_failure_counterexample:
  "fst (login portal demo_config ''alice'' ''wrong'' (new_session fresh_browser)) = Inr None \<and>
   fst (login portal demo_config ''alice'' ''wrong'' (new_session fresh_browser)) \<noteq> Inr (Some False) \<and>
   fst (is_logged portal (snd (login portal demo_config ''alice'' ''wrong'' (new_session fresh_browser))))
     = Inr (Some False)"
  by (simp add: run sim_run)

text \<open>
  C3, amended. When \<open>login\<close> has submitted the credentials and the detection after the
  submission returns \<^verbatim>\<open>None\<close> or \<^verbatim>\<open>False\<close>, \<open>login\<close> returns \<^verbatim>\<open>None\<close>: it has no
  explicit failure result. (By \<open>login_result\<close> it never returns \<^verbatim>\<open>False\<close>; \<open>main\<close>
  compares the result with \<^verbatim>\<open>is True\<close>, so \<^verbatim>\<open>None\<close> counts as no success there.)
\<close>

theorem login_failure_returns_None:
  assumes "init env cfg s = (Inr (), sa)"
    and "is_logged env sa = (Inr l0, sb)" and "l0 \<noteq> Some True"
    and "submit_credentials env cfg username password sb = (Inr (), sc)"
    and "is_logged env sc = (Inr l, sd)" and "l = None \<or> l = Some False"
  shows "login env cfg username password s = (Inr None, sd)"
  using assms
  by (auto simp add: login_def login_attempt_def before_apply and_then_apply ret_apply truthy_iff)

theorem login_failure_returns_None_witness:
  "fst (login portal demo_config ''bob'' ''guess'' (new_session fresh_browser)) = Inr None"
proof -
  let ?sa = "snd (init portal demo_config (new_session fresh_browser))"
  let ?sb = "snd (is_logged portal ?sa)"
  let ?sc = "snd (submit_credentials portal demo_config ''bob'' ''guess'' ?sb)"
  let ?sd = "snd (is_logged portal ?sc)"
  have 1: "init portal demo_config (new_session fresh_browser) = (Inr (), ?sa)"
    by (rule pair_fst_snd) (simp add: run sim_run)
  have 2: "is_logged portal ?sa = (Inr (Some False), ?sb)"
    by (rule pair_fst_snd) (simp add: run sim_run)
  have 3: "Some False \<noteq> Some True" by simp
  have 4: "submit_credentials portal demo_config ''bob'' ''guess'' ?sb = (Inr (), ?sc)"
    by (rule pair_fst_snd) (simp add: run sim_run)
  have 5: "is_logged portal ?sc = (Inr (Some False), ?sd)"
    by (rule pair_fst_snd) (simp add: run sim_run)
  have 6: "Some False = None \<or> Some False = Some False" by simp
  show ?thesis
    using login_failure_returns_None [OF 1 2 3 4 5 6] by simp
qed

section \<open>The keepalive cycle\<close>

text \<open>
  C9. With a keepalive interval of zero or less, once the detection-and-login statement
  of a cycle has returned and the browser has quit, the cycle records exactly one more
  event, the quit, and raises \<^verbatim>\<open>SystemExit(0)\<close>; the handler of the loop, which catches
  \<^verbatim>\<open>Exception\<close> only, lets it pass, so the loop ends there with exit status 0.
\<close>

theorem one_shot_exit:
  assumes "keepalive \<le> 0"
    and "relogin_step env cfg username password s = (Inr (), s1)"
    and "drv_quit env (world s1) = (Inr (), w2)"
  shows "cycle env cfg username password keepalive s =
           (Inl (SystemExit 0), s1\<lparr>world := w2, trace := trace s1 @ [Ev_quit]\<rparr>) \<and>
         main_loop (Suc n) env cfg username password keepalive s =
           Some (SystemExit 0, s1\<lparr>world := w2, trace := trace s1 @ [Ev_quit]\<rparr>) \<and>
         exit_status (SystemExit 0) = 0"
proof -
  have c: "cycle env cfg username password keepalive s =
           (Inl (SystemExit 0), s1\<lparr>world := w2, trace := trace s1 @ [Ev_quit]\<rparr>)"
    using assms
    by (simp add: cycle_def cycle_body_def keepalive_step_def close_def try_except_apply
        before_apply ext_apply raise_apply)
  then show ?thesis by simp
qed

text \<open>One-shot run on a fresh data directory: one login, one quit, exit status 0.\<close>

theorem one_shot_exit_witness:
  "map_option fst (main_loop 1 portal demo_config ''alice'' ''secret'' 0
      (snd (init portal demo_config (new_session fresh_browser)))) = Some (SystemExit 0) \<and>
   length (filter (\<lambda>ev. ev = Ev_quit)
     (trace (snd (cycle portal demo_config ''alice'' ''secret'' 0
        (snd (init portal demo_config (new_session fresh_browser))))))) = 1"
proof -
  let ?s = "snd (init portal demo_config (new_session fresh_browser))"
  let ?s1 = "snd (relogin_step portal demo_config ''alice'' ''secret'' ?s)"
  have 1: "(0::real) \<le> 0" by simp
  have 2: "relogin_step portal demo_config ''alice'' ''secret'' ?s = (Inr (), ?s1)"
    by (rule pair_fst_snd) (simp add: run sim_run)
  have 3: "drv_quit portal (world ?s1) = (Inr (), world ?s1)"
    by (simp add: portal_def)
  have 4: "filter (\<lambda>ev. ev = Ev_quit) (trace ?s1) = []"
    by (simp add: run sim_run)
  show ?thesis
    using one_shot_exit [OF 1 2 3, of 0] 4 by simp
qed

lemma delay_loading_valid:
  "valid_sleep_length (loading_delay cfg) \<Longrightarrow>
     delay_loading env cfg s =
       ext (Ev_sleep (loading_delay cfg)) (os_sleep env (loading_delay cfg)) s"
  by (simp add: delay_loading_def time_sleep_def valid_sleep_length_def)

lemma error_handler_apply:
  "error_handler env cfg e s =
     delay_loading env cfg
       (s\<lparr>trace := trace s @ [Ev_log Error ''An error occurred when trying to login, retrying ...'',
                               Ev_log Error ''exception'']\<rparr>)"
  by (simp add: error_handler_def before_apply log_msg_apply)

lemma error_handler_valid:
  assumes "valid_sleep_length (loading_delay cfg)"
    and "os_sleep env (loading_delay cfg) (world s) = (r, w)"
  shows "error_handler env cfg e s = (r, handled cfg s w)"
  using assms by (simp add: error_handler_apply delay_loading_valid ext_apply handled_def)

lemma pause_raises_signal:
  assumes "pause_only_signals env cfg"
    and "os_sleep env (loading_delay cfg) w = (Inl e, w')"
  shows "\<not> is_Exception e"
  using assms unfolding pause_only_signals_def by (metis fst_conv sum.case(1))

lemma cycle_no_Exception:
  assumes "valid_sleep_length (loading_delay cfg)" and "pause_only_signals env cfg"
    and "cycle env cfg username password keepalive s = (Inl e, s')"
  shows "\<not> is_Exception e"
proof -
  obtain r s1 where b: "cycle_body env cfg username password keepalive s = (r, s1)"
    by (cases "cycle_body env cfg username password keepalive s")
  show ?thesis
  proof (cases r)
    case (Inr u)
    with b assms(3) show ?thesis by (simp add: cycle_def try_except_apply)
  next
    case (Inl e0)
    show ?thesis
    proof (cases "is_Exception e0")
      case False
      with Inl b assms(3) show ?thesis by (simp add: cycle_def try_except_apply)
    next
      case True
      obtain r2 w2 where o: "os_sleep env (loading_delay cfg) (world s1) = (r2, w2)"
        by (cases "os_sleep env (loading_delay cfg) (world s1)")
      from True Inl b assms(3) have "error_handler env cfg e0 s1 = (Inl e, s')"
        by (simp add: cycle_def try_except_apply)
      with error_handler_valid [OF assms(1) o] have "r2 = Inl e" by simp
      with o show ?thesis using pause_raises_signal [OF assms(2)] by blast
    qed
  qed
qed

lemma main_loop_no_Exception:
  assumes "valid_sleep_length (loading_delay cfg)" and "pause_only_signals env cfg"
  shows "main_loop n env cfg username password keepalive s = Some (e, s') \<Longrightarrow> \<not> is_Exception e"
proof (induction n arbitrary: s)
  case 0
  then show ?case by simp
next
  case (Suc n)
  obtain r s1 where c: "cycle env cfg username password keepalive s = (r, s1)"
    by (cases "cycle env cfg username password keepalive s")
  show ?case
  proof (cases r)
    case (Inl e0)
    with c Suc.prems have "e0 = e" by simp
    with Inl c show ?thesis using cycle_no_Exception [OF assms] by blast
  next
    case (Inr u)
    with c Suc.prems have "main_loop n env cfg username password keepalive s1 = Some (e, s')"
      by simp
    then show ?thesis by (rule Suc.IH)
  qed
qed

text \<open>
  C8. Let the pause length be one that \<^verbatim>\<open>time.sleep\<close> accepts and let the handler's pause
  be cut short by nothing but signals. When the body of a cycle raises an \<^verbatim>\<open>Exception\<close>,
  wherever in the body (detection, navigation, login or a sleep), the handler logs it
  twice and pauses for \<open>loading_delay\<close>. When the pause returns, the cycle returns
  normally and the loop runs its next cycle from the state the handler left: the loop's
  outcome is that cycle's exception if it raises one, and the rest of the loop after it
  otherwise. When a signal cuts the pause short, the signal leaves the cycle. And
  whenever the loop ends, it ends with a \<^verbatim>\<open>SystemExit\<close> or a \<^verbatim>\<open>KeyboardInterrupt\<close>, never
  with an \<^verbatim>\<open>Exception\<close>.
\<close>

theorem cycle_error_caught:
  assumes "valid_sleep_length (loading_delay cfg)" and "pause_only_signals env cfg"
    and "cycle_body env cfg username password keepalive s = (Inl (Exception c), s1)"
  shows "(case os_sleep env (loading_delay cfg) (world s1) of
            (Inr u, w2) \<Rightarrow>
              cycle env cfg username password keepalive s = (Inr (), handled cfg s1 w2) \<and>
              main_loop (Suc (Suc n)) env cfg username password keepalive s =
                (case cycle env cfg username password keepalive (handled cfg s1 w2) of
                   (Inl e, s') \<Rightarrow> Some (e, s')
                 | (Inr u, s') \<Rightarrow> main_loop n env cfg username password keepalive s')
          | (Inl e, w2) \<Rightarrow>
              \<not> is_Exception e \<and>
              cycle env cfg username password keepalive s = (Inl e, handled cfg s1 w2)) \<and>
         (\<forall>m t e t'. main_loop m env cfg username password keepalive t = Some (e, t')
            \<longrightarrow> \<not> is_Exception e)"
proof -
  obtain r w2 where o: "os_sleep env (loading_delay cfg) (world s1) = (r, w2)"
    by (cases "os_sleep env (loading_delay cfg) (world s1)")
  have c: "cycle env cfg username password keepalive s = (r, handled cfg s1 w2)"
    using assms(3) error_handler_valid [OF assms(1) o]
    by (simp add: cycle_def try_except_apply)
  have b: "\<forall>m t e t'. main_loop m env cfg username password keepalive t = Some (e, t')
            \<longrightarrow> \<not> is_Exception e"
    using main_loop_no_Exception [OF assms(1,2)] by blast
  show ?thesis
  proof (cases r)
    case (Inl e)
    with o have "\<not> is_Exception e" using pause_raises_signal [OF assms(2)] by blast
    with Inl o c b show ?thesis by simp
  next
    case (Inr u)
    with o c b show ?thesis by simp
  qed
qed

text \<open>
  With the blank page as portal address no form shows, the wait for the user-name field
  times out, the cycle catches the timeout, and the loop runs the next cycle, which ends
  the same way: after two cycles the loop is still running.
\<close>

theorem cycle_error_caught_witness:
  "fst (cycle_body portal blank_config ''alice'' ''secret'' 200 blank_session) =
     Inl (Exception TimeoutException) \<and>
   fst (cycle portal blank_config ''alice'' ''secret'' 200 blank_session) = Inr () \<and>
   drop (length (trace (snd (cycle_body portal blank_config ''alice'' ''secret'' 200 blank_session))))
     (trace (snd (cycle portal blank_config ''alice'' ''secret'' 200 blank_session))) =
     [Ev_log Error ''An error occurred when trying to login, retrying ...'',
      Ev_log Error ''exception'', Ev_sleep 5] \<and>
   fst (cycle portal blank_config ''alice'' ''secret'' 200
     (snd (cycle portal blank_config ''alice'' ''secret'' 200 blank_session))) = Inr () \<and>
   main_loop 2 portal blank_config ''alice'' ''secret'' 200 blank_session = None"
proof -
  let ?s1 = "snd (cycle_body portal blank_config ''alice'' ''secret'' 200 blank_session)"
  let ?s2 = "handled blank_config ?s1 (world ?s1)"
  have 1: "valid_sleep_length (loading_delay blank_config)"
    by (simp add: valid_sleep_length_def sleep_overflows_def sim_run)
  have 2: "pause_only_signals portal blank_config"
    by (simp add: pause_only_signals_def portal_def)
  have f: "fst (cycle_body portal blank_config ''alice'' ''secret'' 200 blank_session) =
             Inl (Exception TimeoutException)"
    by (simp add: run sim_run)
  have 3: "cycle_body portal blank_config ''alice'' ''secret'' 200 blank_session =
             (Inl (Exception TimeoutException), ?s1)"
    by (rule pair_fst_snd [OF f])
  have 4: "os_sleep portal d w = (Inr (), w)" for d w
    by (simp add: portal_def)
  have 5: "loading_delay blank_config = 5" by (simp add: sim_run)
  have c: "cycle portal blank_config ''alice'' ''secret'' 200 blank_session = (Inr (), ?s2) \<and>
           main_loop (Suc (Suc 0)) portal blank_config ''alice'' ''secret'' 200 blank_session =
             (case cycle portal blank_config ''alice'' ''secret'' 200 ?s2 of
                (Inl e, s') \<Rightarrow> Some (e, s')
              | (Inr u, s') \<Rightarrow> main_loop 0 portal blank_config ''alice'' ''secret'' 200 s')"
    using cycle_error_caught [OF 1 2 3, of 0] by (simp only: 4 prod.case sum.case)
  have n: "fst (cycle portal blank_config ''alice'' ''secret'' 200 ?s2) = Inr ()"
    by (simp add: run sim_run handled_def)
  have m: "main_loop 2 portal blank_config ''alice'' ''secret'' 200 blank_session = None"
    using c n by (simp add: numeral_2_eq_2 split: prod.splits sum.splits)
  show ?thesis
    using n m by (simp add: f c 5 handled_def)
qed

section \<open>Submit attempts\<close>

lemma storage_event_not_form: "storage_event ev \<Longrightarrow> \<not> is_form_event ev"
  by (cases ev) (simp_all add: storage_event_def)

lemma is_submit_form: "is_submit ev \<Longrightarrow> is_form_event ev"
  by (simp add: is_submit_def)

lemma emits_load_storage_no_form: "emits (\<lambda>ev. \<not> is_form_event ev) (load_storage env cfg)"
  by (rule emits_weaken [OF emits_load_storage]) (rule storage_event_not_form)

lemma emits_init_steps: "emits (\<lambda>ev. \<not> is_form_event ev) (init_steps env cfg)"
  unfolding init_steps_def open_portal_def wait_login_page_def delay_loading_def
  by (intro frame emits_load_storage_no_form) simp_all

lemma emits_init: "emits (\<lambda>ev. \<not> is_form_event ev) (init env cfg)"
  unfolding emits_def
proof
  fix s :: "'a session"
  show "\<exists>evs. trace (snd (init env cfg s)) = trace s @ evs \<and> list_all (\<lambda>ev. \<not> is_form_event ev) evs"
  proof (cases "initialized s")
    case True
    then show ?thesis by (simp add: init_def)
  next
    case False
    then show ?thesis
      using emits_init_steps [of env cfg] by (simp add: init_def emits_def)
  qed
qed

lemma emits_is_logged: "emits (\<lambda>ev. \<not> is_form_event ev) (is_logged env)"
  unfolding is_logged_def current_url_def page_source_def
  by (intro frame) simp_all

lemma keeps_is_logged: "keeps_flag (is_logged env)"
  unfolding is_logged_def current_url_def page_source_def
  by (intro frame)

lemma emits_update_storage: "emits (\<lambda>ev. \<not> is_form_event ev) (update_storage env cfg)"
  unfolding update_storage_def
  by (intro frame) simp_all

lemma keeps_update_storage: "keeps_flag (update_storage env cfg)"
  unfolding update_storage_def
  by (intro frame)

lemma emits_enter_credentials:
  "emits (\<lambda>ev. \<not> is_submit ev) (enter_credentials env cfg username password)"
  unfolding enter_credentials_def scroll_and_click_def find_element_def wait_clickable_def
    delay_input_def
  by (intro frame) (simp_all add: is_submit_def)

lemma keeps_enter_credentials: "keeps_flag (enter_credentials env cfg username password)"
  unfolding enter_credentials_def scroll_and_click_def find_element_def wait_clickable_def
    delay_input_def
  by (intro frame)

lemma keeps_click_login_button: "keeps_flag (click_login_button env)"
  unfolding click_login_button_def scroll_and_click_def find_element_def
  by (intro frame)

lemma keeps_submit_credentials: "keeps_flag (submit_credentials env cfg username password)"
  unfolding submit_credentials_def
  by (intro frame keeps_enter_credentials keeps_delay_input keeps_click_login_button
      keeps_delay_loading)

lemma keeps_login_attempt: "keeps_flag (login_attempt env cfg username password)"
  unfolding login_attempt_def
  by (intro frame keeps_submit_credentials keeps_is_logged keeps_update_storage)

lemma submit_attempts_append [simp]:
  "submit_attempts (xs @ ys) = submit_attempts xs + submit_attempts ys"
  by (simp add: submit_attempts_def)

lemma submit_attempts_none: "list_all (\<lambda>ev. \<not> is_submit ev) evs \<Longrightarrow> submit_attempts evs = 0"
  by (induction evs) (simp_all add: submit_attempts_def)

lemma no_submit:
  assumes "emits (\<lambda>ev. \<not> is_submit ev) m" and "m s = (r, s')"
  shows "submit_attempts (trace s') = submit_attempts (trace s)"
  using emitsD [OF assms] by (auto simp: submit_attempts_none)

lemma no_form:
  assumes "emits (\<lambda>ev. \<not> is_form_event ev) m" and "m s = (r, s')"
  shows "filter is_form_event (trace s') = filter is_form_event (trace s)"
proof -
  from emitsD [OF assms] obtain evs where
    e: "trace s' = trace s @ evs" "list_all (\<lambda>ev. \<not> is_form_event ev) evs" by blast
  then have "filter is_form_event evs = []"
    by (simp add: list_all_iff)
  with e show ?thesis by simp
qed

lemma no_form_no_submit:
  "emits (\<lambda>ev. \<not> is_form_event ev) m \<Longrightarrow> emits (\<lambda>ev. \<not> is_submit ev) m"
  by (erule emits_weaken) (auto dest: is_submit_form)

lemma click_login_button_submits:
  "click_login_button env s = (r, s') \<Longrightarrow> submit_attempts (trace s') = submit_attempts (trace s) + 1"
  by (auto simp add: click_login_button_def scroll_and_click_def find_element_def and_then_apply
      before_apply ext_apply ret_apply submit_attempts_def is_submit_def
      split: prod.splits sum.splits)

lemma submit_credentials_submits:
  assumes "submit_credentials env cfg username password s = (Inr (), s')"
  shows "submit_attempts (trace s') = submit_attempts (trace s) + 1"
proof -
  from assms obtain sa sb sc where
    a: "enter_credentials env cfg username password s = (Inr (), sa)" and
    b: "delay_input env cfg sa = (Inr (), sb)" and
    c: "click_login_button env sb = (Inr (), sc)" and
    d: "delay_loading env cfg (sc\<lparr>trace := trace sc @ [Ev_log Info ''Performed basic login action'']\<rparr>)
          = (Inr (), s')"
    by (auto simp add: submit_credentials_def before_apply log_msg_apply
        split: prod.splits sum.splits)
  have ea: "submit_attempts (trace sa) = submit_attempts (trace s)"
    by (rule no_submit [OF emits_enter_credentials a])
  have s: "emits (\<lambda>ev. \<not> is_submit ev) (time_sleep env dd)" for dd
    by (intro frame) (simp add: is_submit_def)
  have eb: "submit_attempts (trace sb) = submit_attempts (trace sa)"
    using no_submit [OF s] b unfolding delay_input_def by blast
  have ec: "submit_attempts (trace sc) = submit_attempts (trace sb) + 1"
    by (rule click_login_button_submits [OF c])
  have ed: "submit_attempts (trace s') =
            submit_attempts (trace sc @ [Ev_log Info ''Performed basic login action''])"
    using no_submit [OF s] d unfolding delay_loading_def by fastforce
  show ?thesis using ea eb ec ed by (simp add: submit_attempts_def is_submit_def)
qed

lemma login_attempt_submits:
  assumes "login_attempt env cfg username password s = (Inr r, s')"
  shows "submit_attempts (trace s') = submit_attempts (trace s) + 1"
proof -
  let ?rest = "and_then (is_logged env) (\<lambda>logged.
          if truthy logged
          then before (log_msg Info ''Login Success'')
                 (before (update_storage env cfg) (ret (Some True)))
          else ret None)"
  from assms obtain sa where
    a: "submit_credentials env cfg username password s = (Inr (), sa)" and
    b: "?rest sa = (Inr r, s')"
    by (auto simp add: login_attempt_def before_apply split: prod.splits sum.splits)
  have "emits (\<lambda>ev. \<not> is_submit ev) ?rest"
    by (intro frame no_form_no_submit [OF emits_is_logged] no_form_no_submit [OF emits_update_storage])
       (simp add: is_submit_def)
  from no_submit [OF this b] submit_credentials_submits [OF a] show ?thesis by simp
qed

section \<open>Login when already logged in\<close>

lemma init_returns_initialized: "init env cfg s = (Inr u, s') \<Longrightarrow> initialized s'"
  by (auto simp add: init_def init_steps_apply split: if_splits prod.splits sum.splits)

lemma login_short_circuit:
  assumes "init env cfg s = (Inr (), sa)" and "is_logged env sa = (Inr (Some True), sb)"
  shows "login env cfg username password s =
           (Inr (Some True), sb\<lparr>trace := trace sb @ [Ev_log Info ''Already logged in'']\<rparr>)"
    and "filter is_form_event (trace sb) = filter is_form_event (trace s)"
proof -
  show "login env cfg username password s =
           (Inr (Some True), sb\<lparr>trace := trace sb @ [Ev_log Info ''Already logged in'']\<rparr>)"
    using assms by (simp add: login_def before_apply and_then_apply log_msg_apply ret_apply)
  show "filter is_form_event (trace sb) = filter is_form_event (trace s)"
    using no_form [OF emits_init assms(1)] no_form [OF emits_is_logged assms(2)] by simp
qed

text \<open>
  C4. When the detection at the start of \<open>login\<close> returns \<^verbatim>\<open>True\<close>, \<open>login\<close> returns
  \<^verbatim>\<open>True\<close> at once, having logged one line and made no call on a page element. So when
  a first call had to submit the credentials and succeeded, and the detection at a
  second call returns \<^verbatim>\<open>True\<close>, the second call returns \<^verbatim>\<open>True\<close> and the two calls
  together have made exactly one submit attempt.
\<close>

theorem login_idempotent:
  "(init env cfg s = (Inr (), sa) \<and> is_logged env sa = (Inr (Some True), sb) \<longrightarrow>
      login env cfg username password s =
        (Inr (Some True), sb\<lparr>trace := trace sb @ [Ev_log Info ''Already logged in'']\<rparr>) \<and>
      filter is_form_event (trace (snd (login env cfg username password s))) =
        filter is_form_event (trace s)) \<and>
   (init env cfg s = (Inr (), sa) \<and> is_logged env sa = (Inr l, sb) \<and> l \<noteq> Some True \<and>
    login_attempt env cfg username password sb = (Inr (Some True), s1) \<and>
    is_logged env s1 = (Inr (Some True), s2) \<longrightarrow>
      login env cfg username password s = (Inr (Some True), s1) \<and>
      login env cfg username password s1 =
        (Inr (Some True), s2\<lparr>trace := trace s2 @ [Ev_log Info ''Already logged in'']\<rparr>) \<and>
      submit_attempts (trace (snd (login env cfg username password s1))) =
        submit_attempts (trace s) + 1)"
proof (intro conjI impI)
  assume h: "init env cfg s = (Inr (), sa) \<and> is_logged env sa = (Inr (Some True), sb)"
  then show "login env cfg username password s =
        (Inr (Some True), sb\<lparr>trace := trace sb @ [Ev_log Info ''Already logged in'']\<rparr>)"
    using login_short_circuit(1) by blast
  then show "filter is_form_event (trace (snd (login env cfg username password s))) =
        filter is_form_event (trace s)"
    using h login_short_circuit(2) [of env cfg s sa sb] by simp
next
  assume h: "init env cfg s = (Inr (), sa) \<and> is_logged env sa = (Inr l, sb) \<and> l \<noteq> Some True \<and>
    login_attempt env cfg username password sb = (Inr (Some True), s1) \<and>
    is_logged env s1 = (Inr (Some True), s2)"
  then have i: "init env cfg s = (Inr (), sa)" and d: "is_logged env sa = (Inr l, sb)"
    and l: "l \<noteq> Some True" and a: "login_attempt env cfg username password sb = (Inr (Some True), s1)"
    and d2: "is_logged env s1 = (Inr (Some True), s2)" by auto
  show first: "login env cfg username password s = (Inr (Some True), s1)"
    using i d l a by (simp add: login_def before_apply and_then_apply truthy_iff)
  have "initialized sa" by (rule init_returns_initialized [OF i])
  then have "initialized sb" using keeps_flagD [OF keeps_is_logged d] by simp
  then have "initialized s1" using keeps_flagD [OF keeps_login_attempt a] by simp
  then have i1: "init env cfg s1 = (Inr (), s1)" by (simp add: init_def)
  show second: "login env cfg username password s1 =
        (Inr (Some True), s2\<lparr>trace := trace s2 @ [Ev_log Info ''Already logged in'']\<rparr>)"
    by (rule login_short_circuit(1) [OF i1 d2])
  have c0: "submit_attempts (trace sa) = submit_attempts (trace s)"
    by (rule no_submit [OF no_form_no_submit [OF emits_init] i])
  have c1: "submit_attempts (trace sb) = submit_attempts (trace sa)"
    by (rule no_submit [OF no_form_no_submit [OF emits_is_logged] d])
  have c2: "submit_attempts (trace s1) = submit_attempts (trace sb) + 1"
    by (rule login_attempt_submits [OF a])
  have c3: "submit_attempts (trace s2) = submit_attempts (trace s1)"
    by (rule no_submit [OF no_form_no_submit [OF emits_is_logged] d2])
  show "submit_attempts (trace (snd (login env cfg username password s1))) =
        submit_attempts (trace s) + 1"
    using second c0 c1 c2 c3 by (simp add: submit_attempts_def is_submit_def)
qed

text \<open>Two calls of \<open>login\<close> with the right password on a fresh browser: one submit.\<close>

theorem login_idempotent_witness:
  "submit_attempts
     (trace (snd (login portal demo_config ''alice'' ''secret''
        (snd (login portal demo_config ''alice'' ''secret'' (new_session fresh_browser)))))) = 1"
proof -
  let ?s = "new_session fresh_browser"
  let ?sa = "snd (init portal demo_config ?s)"
  let ?sb = "snd (is_logged portal ?sa)"
  let ?s1 = "snd (login_attempt portal demo_config ''alice'' ''secret'' ?sb)"
  let ?s2 = "snd (is_logged portal ?s1)"
  have 1: "init portal demo_config ?s = (Inr (), ?sa)"
    by (rule pair_fst_snd) (simp add: run sim_run)
  have 2: "is_logged portal ?sa = (Inr (Some False), ?sb)"
    by (rule pair_fst_snd) (simp add: run sim_run)
  have 3: "Some False \<noteq> Some True" by simp
  have 4: "login_attempt portal demo_config ''alice'' ''secret'' ?sb = (Inr (Some True), ?s1)"
    by (rule pair_fst_snd) (simp add: run sim_run)
  have 5: "is_logged portal ?s1 = (Inr (Some True), ?s2)"
    by (rule pair_fst_snd) (simp add: run sim_run)
  have 6: "submit_attempts (trace ?s) = 0"
    by (simp add: new_session_def submit_attempts_def)
  from login_idempotent [of portal demo_config ?s ?sa ?sb "''alice''" "''secret''" "Some False" ?s1 ?s2]
    1 2 3 4 5
  have "login portal demo_config ''alice'' ''secret'' ?s = (Inr (Some True), ?s1) \<and>
        submit_attempts (trace (snd (login portal demo_config ''alice'' ''secret'' ?s1))) =
          submit_attempts (trace ?s) + 1"
    by blast
  then show ?thesis by (simp add: 6)
qed

section \<open>Saving and restoring the session artifacts\<close>



lemma restore_cookies_named:
  "restore_cookies env cs s = (Inr (), s') \<Longrightarrow> \<forall>c \<in> set cs. map_of c ''name'' \<noteq> None"
proof (induction cs arbitrary: s)
  case Nil
  then show ?case by simp
next
  case (Cons c cs)
  from Cons.prems obtain n where n: "map_of c ''name'' = Some n"
    by (cases "map_of c ''name''") (simp_all add: raise_apply)
  from Cons.prems n obtain t where "restore_cookies env cs t = (Inr (), s')"
    by (auto simp add: before_apply ext_apply split: prod.splits sum.splits)
  from Cons.IH [OF this] n show ?case by simp
qed







text \<open>
  In the reference world, whose browser deletes by name and appends on add, a replay that
  returns leaves the jar \<open>jar_after\<close> gives; cookies of distinct names, replayed into a
  jar that holds none of these names, are all kept.
\<close>

lemma portal_restore_cookies_jar:
  "restore_cookies portal cs s = (Inr (), s') \<Longrightarrow>
     sim_cookies (world s') = jar_after cs (sim_cookies (world s))"
proof (induction cs arbitrary: s)
  case Nil
  then show ?case by (simp add: ret_apply)
next
  case (Cons c cs)
  from Cons.prems obtain n where n: "map_of c ''name'' = Some n"
    by (cases "map_of c ''name''") (simp_all add: raise_apply)
  let ?w = "(world s)\<lparr>sim_cookies :=
              filter (\<lambda>x. map_of x ''name'' \<noteq> Some n) (sim_cookies (world s)) @ [c]\<rparr>"
  from Cons.prems n
  have "restore_cookies portal cs
          (s\<lparr>world := ?w, trace := trace s @ [Ev_delete_cookie n, Ev_add_cookie c]\<rparr>) = (Inr (), s')"
    by (simp add: before_apply ext_apply portal_def)
  from Cons.IH [OF this] n show ?case by simp
qed

lemma jar_after_distinct:
  assumes "distinct (map (\<lambda>c. map_of c ''name'') cs)"
    and "\<forall>x \<in> set jar. \<forall>c \<in> set cs. map_of x ''name'' \<noteq> map_of c ''name''"
  shows "jar_after cs jar = jar @ cs"
  using assms
proof (induction cs arbitrary: jar)
  case Nil
  then show ?case by simp
next
  case (Cons c cs)
  have f: "filter (\<lambda>x. map_of x ''name'' \<noteq> map_of c ''name'') jar = jar"
    using Cons.prems(2) by (simp add: filter_id_conv)
  have "jar_after cs (jar @ [c]) = (jar @ [c]) @ cs"
  proof (rule Cons.IH)
    show "distinct (map (\<lambda>c. map_of c ''name'') cs)" using Cons.prems(1) by simp
    show "\<forall>x \<in> set (jar @ [c]). \<forall>c \<in> set cs. map_of x ''name'' \<noteq> map_of c ''name''"
      using Cons.prems by auto
  qed
  with f show ?case by simp
qed

section \<open>The pause length once the loop is reached\<close>

text \<open>
  \<open>main\<close> reaches its loop only after \<open>init\<close> has returned on a new session, and
  \<open>init\<close> has then slept for \<open>loading_delay\<close>: \<^verbatim>\<open>time.sleep\<close> accepts that length.
\<close>

lemma delay_loading_returns:
  "delay_loading env cfg s = (Inr u, s') \<Longrightarrow> valid_sleep_length (loading_delay cfg)"
  by (simp add: delay_loading_def time_sleep_def raise_apply valid_sleep_length_def
      split: if_splits)

lemma init_returns_delay_valid:
  assumes "init env cfg (new_session w) = (Inr u, s')"
  shows "valid_sleep_length (loading_delay cfg)"
  using assms
  by (auto simp add: init_def init_steps_apply new_session_def
      split: prod.splits sum.splits dest: delay_loading_returns)

lemma main_ends_without_Exception_in_loop:
  assumes "pause_only_signals env cfg"
    and "init env cfg (new_session w) = (Inr (), s0)"
    and "main n env cfg username password keepalive w = Some (e, s')"
  shows "\<not> is_Exception e"
proof -
  have d: "valid_sleep_length (loading_delay cfg)"
    by (rule init_returns_delay_valid [OF assms(2)])
  from assms(2,3) have "main_loop n env cfg username password keepalive s0 = Some (e, s')"
    by (simp add: main_def)
  then show ?thesis by (rule main_loop_no_Exception [OF d assms(1)])
qed

end
